theory Spec2Isabelle
  imports Complex_Main
begin

section \<open>NodePulse: the sync estimator (class SyncStatsTracker)\<close>

text \<open>
  A sample is the dict appended to \<open>self.history\<close> by \<open>update\<close>. The wall clock
  \<open>datetime.now()\<close> is an input of the model: a time stamp is the number of
  microseconds since some epoch (the resolution of \<open>datetime\<close>), and the difference of
  two time stamps is a \<open>timedelta\<close> in microseconds. Block heights are Python's unbounded
  integers. Rates and durations are Python floats in the source; the model computes them
  as exact rationals, so the rounding of floating point is not part of it (sign and
  zero tests are those of the exact quotient).
\<close>

record sample =
  time :: int
  blocks :: int
  headers :: int
  is_syncing :: bool

text \<open>
  \<open>was_syncing\<close> and \<open>initial_blocks\<close> start as Python's \<open>None\<close>; the value returned by
  \<open>update\<close> is the value of \<open>self.was_syncing and not is_syncing\<close>, which is \<open>None\<close> when
  \<open>was_syncing\<close> is \<open>None\<close>. Both are modelled by \<open>option\<close>, with \<open>None\<close> for \<open>None\<close>.
\<close>

record tracker =
  max_history :: nat
  history :: "sample list"
  start_time :: int
  initial_blocks :: "int option"
  was_syncing :: "bool option"

definition init_tracker :: "nat \<Rightarrow> int \<Rightarrow> tracker" where
  "init_tracker mh now =
     \<lparr>max_history = mh, history = [], start_time = now,
      initial_blocks = None, was_syncing = None\<rparr>"

text \<open>\<open>deque(maxlen=n).append(x)\<close>: the oldest entries are discarded once the deque is full.\<close>

definition deque_append :: "nat \<Rightarrow> 'a list \<Rightarrow> 'a \<Rightarrow> 'a list" where
  "deque_append n xs x = (let ys = xs @ [x] in drop (length ys - n) ys)"

text \<open>Python's \<open>a and not b\<close> for \<open>a\<close> in \<open>{None, False, True}\<close> and a Boolean \<open>b\<close>.\<close>

fun py_and_not :: "bool option \<Rightarrow> bool \<Rightarrow> bool option" where
  "py_and_not None b = None"
| "py_and_not (Some False) b = Some False"
| "py_and_not (Some True) b = Some (\<not> b)"

text \<open>Truth value of such a result, as tested by \<open>if sync_completed:\<close>.\<close>

fun truthy :: "bool option \<Rightarrow> bool" where
  "truthy None = False"
| "truthy (Some b) = b"

definition update :: "tracker \<Rightarrow> int \<Rightarrow> int \<Rightarrow> int \<Rightarrow> bool \<Rightarrow> tracker \<times> bool option" where
  "update tr now blks hdrs syncing =
     (let tr1 = (if initial_blocks tr = None then tr\<lparr>initial_blocks := Some blks\<rparr> else tr);
          sync_completed = py_and_not (was_syncing tr1) syncing;
          tr2 = tr1\<lparr>was_syncing := Some syncing\<rparr>;
          tr3 = tr2\<lparr>history := deque_append (max_history tr2) (history tr2)
                  \<lparr>time = now, blocks = blks, headers = hdrs, is_syncing = syncing\<rparr>\<rparr>
      in (tr3, sync_completed))"

text \<open>\<open>timedelta.total_seconds()\<close> of a difference of time stamps.\<close>

definition total_seconds :: "int \<Rightarrow> rat" where
  "total_seconds us = of_int us / 1000000"

text \<open>\<open>list(self.history)[-12:]\<close>\<close>

definition recent_data :: "tracker \<Rightarrow> sample list" where
  "recent_data tr = drop (length (history tr) - 12) (history tr)"

definition get_blocks_per_hour :: "tracker \<Rightarrow> rat" where
  "get_blocks_per_hour tr =
     (if length (history tr) < 2 then 0
      else if length (recent_data tr) < 2 then 0
      else
        let oldest = hd (recent_data tr);
            newest = last (recent_data tr);
            time_diff = total_seconds (time newest - time oldest) / 3600
        in if time_diff = 0 then 0
           else
             let block_diff = blocks newest - blocks oldest
             in of_int block_diff / time_diff)"

text \<open>
  \<open>get_eta\<close> returns \<open>None\<close> or \<open>timedelta(hours=hours_remaining)\<close>; the model returns the
  number of hours.
\<close>

definition get_eta :: "tracker \<Rightarrow> int \<Rightarrow> int \<Rightarrow> rat option" where
  "get_eta tr current_blocks total_headers =
     (let bph = get_blocks_per_hour tr
      in if bph = 0 \<or> current_blocks \<ge> total_headers then None
         else
           let blocks_remaining = total_headers - current_blocks;
               hours_remaining = of_int blocks_remaining / bph
           in Some hours_remaining)"

text \<open>
  One call of \<open>update\<close> as data: the time of the call and its three arguments. \<open>feed\<close> makes
  the calls in order and returns the final tracker; \<open>updates\<close> returns what each call
  returned.
\<close>

record call =
  c_now :: int
  c_blocks :: int
  c_headers :: int
  c_syncing :: bool

definition update_call :: "tracker \<Rightarrow> call \<Rightarrow> tracker \<times> bool option" where
  "update_call tr c = update tr (c_now c) (c_blocks c) (c_headers c) (c_syncing c)"

fun feed :: "tracker \<Rightarrow> call list \<Rightarrow> tracker" where
  "feed tr [] = tr"
| "feed tr (c # cs) = feed (fst (update_call tr c)) cs"

fun updates :: "tracker \<Rightarrow> call list \<Rightarrow> bool option list" where
  "updates tr [] = []"
| "updates tr (c # cs) = snd (update_call tr c) # updates (fst (update_call tr c)) cs"

section \<open>NodePulse: the RPC client (class BitcoinNodeData)\<close>

text \<open>
  One run of \<open>bitcoin-cli\<close> as \<open>run_command\<close> sees it. \<open>SpawnError\<close> and \<open>Timeout\<close> are the
  exceptions of \<open>create_subprocess_exec\<close> and \<open>wait_for(..., timeout=5)\<close>; \<open>Exited rc out\<close> is
  a process that ended with return code \<open>rc\<close>, where \<open>out\<close> is the value \<open>json.loads\<close> gives
  for its output, \<open>None\<close> when \<open>json.loads\<close> raises on malformed output.
\<close>

datatype 'a cli_run = SpawnError | Timeout | Exited int "'a option"

fun run_command :: "'a cli_run \<Rightarrow> 'a option" where
  "run_command (Exited rc out) = (if rc = 0 then out else None)"
| "run_command SpawnError = None"
| "run_command Timeout = None"

text \<open>
  A JSON object of a reply, as the dict \<open>json.loads\<close> returns. \<open>refresh_data\<close> reads three
  integer fields and one Boolean field of the replies and tests dicts for emptiness;
  the model keeps the keys in order with integer values, a Boolean as Python's \<open>True == 1\<close>
  and \<open>False == 0\<close>. Fields of other types are never read and stand in the list with an
  arbitrary value.
\<close>

type_synonym json_object = "(string \<times> int) list"

text \<open>\<open>d.get(key, default)\<close>\<close>

definition dict_get :: "json_object \<Rightarrow> string \<Rightarrow> int \<Rightarrow> int" where
  "dict_get d k dflt = (case map_of d k of None \<Rightarrow> dflt | Some v \<Rightarrow> v)"

definition get_blockchain_info :: "json_object cli_run \<Rightarrow> json_object option" where
  "get_blockchain_info r = run_command r"

definition get_network_info :: "json_object cli_run \<Rightarrow> json_object option" where
  "get_network_info r = run_command r"

definition get_peer_info :: "json_object list cli_run \<Rightarrow> json_object list option" where
  "get_peer_info r = run_command r"

definition get_mempool_info :: "json_object cli_run \<Rightarrow> json_object option" where
  "get_mempool_info r = run_command r"

definition get_uptime :: "int cli_run \<Rightarrow> int" where
  "get_uptime r = (case run_command r of Some result \<Rightarrow> result | None \<Rightarrow> 0)"

text \<open>
  \<open>BitcoinNodeController.get_uptime\<close> runs the same command itself: \<open>out\<close> is here the value
  of \<open>int(stdout.decode().strip())\<close>, \<open>None\<close> when it raises.
\<close>

fun controller_get_uptime :: "int cli_run \<Rightarrow> int option" where
  "controller_get_uptime (Exited rc out) = (if rc = 0 then out else None)"
| "controller_get_uptime SpawnError = None"
| "controller_get_uptime Timeout = None"

section \<open>NodePulse: the refresh cycle (NodePulseApp.refresh_data)\<close>

text \<open>
  An alert is the dict appended by \<open>AlertsPanel.add_alert\<close> (its time stamp string is not
  modelled); the panel keeps the last five.
\<close>

record alert =
  message :: string
  level :: string

definition add_alert :: "alert list \<Rightarrow> string \<Rightarrow> string \<Rightarrow> alert list" where
  "add_alert alerts msg lvl =
     (let appended = alerts @ [\<lparr>message = msg, level = lvl\<rparr>]
      in drop (length appended - 5) appended)"

text \<open>The data \<open>DashboardPanel.update_data\<close> stores.\<close>

record dashboard =
  d_node_running :: bool
  d_blockchain_info :: "json_object option"
  d_network_info :: "json_object option"
  d_uptime :: int

definition update_data :: "bool \<Rightarrow> json_object option \<Rightarrow> json_object option \<Rightarrow> int \<Rightarrow> dashboard" where
  "update_data running bi ni up =
     \<lparr>d_node_running = running, d_blockchain_info = bi, d_network_info = ni, d_uptime = up\<rparr>"

text \<open>
  The state of the application that \<open>refresh_data\<close> reads and writes: the tracker, the
  alerts panel, the dashboard panel and the three state-tracking attributes. The panels
  of the other tabs only render what they are given and are not part of the model.
\<close>

record app =
  tracker :: tracker
  alerts_panel :: "alert list"
  dashboard_panel :: dashboard
  last_peer_count :: "int option"
  last_blocks :: "int option"
  node_was_responsive :: bool

definition init_app :: "int \<Rightarrow> app" where
  "init_app now =
     \<lparr>tracker = init_tracker 60 now,
      alerts_panel = [],
      dashboard_panel = \<lparr>d_node_running = False, d_blockchain_info = None,
                          d_network_info = None, d_uptime = 0\<rparr>,
      last_peer_count = None,
      last_blocks = None,
      node_was_responsive = True\<rparr>"

text \<open>
  A slot of \<open>asyncio.gather(..., return_exceptions=True)\<close>: the value a coroutine returned,
  or the exception it raised.
\<close>

datatype 'a gathered = Returned 'a | RaisedException

text \<open>The inputs of one cycle: the active tab, the process scan, the clock, the five slots.\<close>

record cycle =
  active_tab :: string
  node_running :: bool
  clock :: int
  g_blockchain_info :: "json_object option gathered"
  g_network_info :: "json_object option gathered"
  g_peer_info :: "json_object list option gathered"
  g_mempool_info :: "json_object option gathered"
  g_uptime :: "int gathered"

text \<open>The five coroutines of the batch, run on the outcomes of their five processes.\<close>

definition dispatch ::
  "string \<Rightarrow> bool \<Rightarrow> int \<Rightarrow> json_object cli_run \<Rightarrow> json_object cli_run \<Rightarrow>
   json_object list cli_run \<Rightarrow> json_object cli_run \<Rightarrow> int cli_run \<Rightarrow> cycle" where
  "dispatch tab running time_now rb rn rp rm ru =
     \<lparr>active_tab = tab, node_running = running, clock = time_now,
      g_blockchain_info = Returned (get_blockchain_info rb),
      g_network_info = Returned (get_network_info rn),
      g_peer_info = Returned (get_peer_info rp),
      g_mempool_info = Returned (get_mempool_info rm),
      g_uptime = Returned (get_uptime ru)\<rparr>"

text \<open>
  The local variables of \<open>refresh_data\<close> after the \<open>isinstance(..., Exception)\<close> tests: the
  values of the cycle.
\<close>

record snapshot =
  blockchain_info :: "json_object option"
  network_info :: "json_object option"
  peer_info :: "json_object list option"
  mempool_info :: "json_object option"
  uptime :: int

fun or_none :: "'a option gathered \<Rightarrow> 'a option" where
  "or_none RaisedException = None"
| "or_none (Returned v) = v"

fun or_zero :: "int gathered \<Rightarrow> int" where
  "or_zero RaisedException = 0"
| "or_zero (Returned v) = v"

definition handle_exceptions :: "cycle \<Rightarrow> snapshot" where
  "handle_exceptions c =
     \<lparr>blockchain_info = or_none (g_blockchain_info c),
      network_info = or_none (g_network_info c),
      peer_info = or_none (g_peer_info c),
      mempool_info = or_none (g_mempool_info c),
      uptime = or_zero (g_uptime c)\<rparr>"

text \<open>\<open>str(n)\<close> of an integer, as an f-string formats it.\<close>

fun str_nat :: "nat \<Rightarrow> string" where
  "str_nat n =
     (if n < 10 then [''0123456789'' ! n]
      else str_nat (n div 10) @ [''0123456789'' ! (n mod 10)])"

declare str_nat.simps [simp del]

definition str_int :: "int \<Rightarrow> string" where
  "str_int i = (if i < 0 then CHR ''-'' # str_nat (nat (- i)) else str_nat (nat i))"

text \<open>
  A call of \<open>self.alerts_panel.add_alert\<close>: the panel is updated, and the alert is added
  to the list of the alerts emitted in this cycle, which \<open>refresh_data\<close> returns beside
  the new state.
\<close>

definition emit :: "string \<Rightarrow> string \<Rightarrow> app \<times> alert list \<Rightarrow> app \<times> alert list" where
  "emit msg lvl = (\<lambda>(s, out).
     (s\<lparr>alerts_panel := add_alert (alerts_panel s) msg lvl\<rparr>,
      out @ [\<lparr>message = msg, level = lvl\<rparr>]))"

text \<open>The message of the sync alert ends with U+1F389, here as its bytes in UTF-8.\<close>

definition sync_completed_message :: string where
  "sync_completed_message =
     ''Blockchain sync completed! '' @ [CHR 0xF0, CHR 0x9F, CHR 0x8E, CHR 0x89]"

text \<open>The peer-count block of \<open>refresh_data\<close>, entered when \<open>network_info\<close> is a non-empty dict.\<close>

definition check_peers :: "json_object \<Rightarrow> app \<times> alert list \<Rightarrow> app \<times> alert list" where
  "check_peers ni = (\<lambda>(s, out).
     let peer_count = dict_get ni ''connections'' 0;
         (s1, out1) =
           (case last_peer_count s of
              None \<Rightarrow> (s, out)
            | Some prev \<Rightarrow>
                if peer_count < 3 \<and> prev \<ge> 3
                then emit (''Low peer count: '' @ str_int peer_count) ''warning'' (s, out)
                else if peer_count \<ge> 3 \<and> prev < 3
                then emit (''Peer count recovered: '' @ str_int peer_count) ''success'' (s, out)
                else (s, out))
     in (s1\<lparr>last_peer_count := Some peer_count\<rparr>, out1))"

text \<open>
  \<open>refresh_data\<close> up to the peer-count block; what follows in the source only hands the
  values to the panels of the active tab.
\<close>

definition refresh_data :: "app \<Rightarrow> cycle \<Rightarrow> app \<times> alert list" where
  "refresh_data s c =
     (let snap = handle_exceptions c;
          s1 = (if active_tab c = ''home''
                then s\<lparr>dashboard_panel := update_data (node_running c) (blockchain_info snap)
                                             (network_info snap) (uptime snap)\<rparr>
                else s)
      in case blockchain_info snap of
           None \<Rightarrow>
             if node_was_responsive s1
             then (\<lambda>(s2, out). (s2\<lparr>node_was_responsive := False\<rparr>, out))
                    (emit ''Node not responding!'' ''error'' (s1, []))
             else (s1, [])
         | Some bi \<Rightarrow>
             let (s2, out2) =
                   (if \<not> node_was_responsive s1
                    then (\<lambda>(s2, out). (s2\<lparr>node_was_responsive := True\<rparr>, out))
                           (emit ''Node connection restored'' ''success'' (s1, []))
                    else (s1, []));
                 blks = dict_get bi ''blocks'' 0;
                 hdrs = dict_get bi ''headers'' 0;
                 syncing = (dict_get bi ''initialblockdownload'' 0 \<noteq> 0);
                 (tr, sync_completed) = update (tracker s2) (clock c) blks hdrs syncing;
                 s3 = s2\<lparr>tracker := tr\<rparr>;
                 (s4, out4) =
                   (if truthy sync_completed
                    then emit sync_completed_message ''success'' (s3, out2)
                    else (s3, out2))
             in case network_info snap of
                  None \<Rightarrow> (s4, out4)
                | Some ni \<Rightarrow> if ni \<noteq> [] then check_peers ni (s4, out4) else (s4, out4))"

text \<open>A run of cycles: the alerts emitted by each cycle, and the final state.\<close>

fun run_cycles :: "app \<Rightarrow> cycle list \<Rightarrow> alert list list" where
  "run_cycles s [] = []"
| "run_cycles s (c # cs) = snd (refresh_data s c) # run_cycles (fst (refresh_data s c)) cs"

fun final_app :: "app \<Rightarrow> cycle list \<Rightarrow> app" where
  "final_app s [] = s"
| "final_app s (c # cs) = final_app (fst (refresh_data s c)) cs"

section \<open>NodePulse: the config store (class BitcoinConfigManager)\<close>

text \<open>
  The text of \<open>bitcoin.conf\<close> is the \<open>str\<close> that Python's text-mode reader delivers, line
  ends already translated to the newline character; a character is its code point,
  below 256. \<open>isspace\<close> is \<open>str.isspace\<close> on these characters, and \<open>strip\<close> is \<open>str.strip()\<close>.
\<close>

abbreviation NL :: char where "NL \<equiv> CHR 0x0A"

definition isspace :: "char \<Rightarrow> bool" where
  "isspace c = (c \<in> set [CHR 0x09, CHR 0x0A, CHR 0x0B, CHR 0x0C, CHR 0x0D, CHR 0x1C,
                         CHR 0x1D, CHR 0x1E, CHR 0x1F, CHR 0x20, CHR 0x85, CHR 0xA0])"

definition strip :: "string \<Rightarrow> string" where
  "strip s = dropWhile isspace (rev (dropWhile isspace (rev s)))"

text \<open>
  \<open>f.readlines()\<close>, and the iteration \<open>for line in f\<close>: the text cut after each newline,
  every line keeping its newline; a last line without newline is kept as it is.
\<close>

fun readlines :: "string \<Rightarrow> string list" where
  "readlines [] = []"
| "readlines (c # cs) =
     (if c = NL then [c] # readlines cs
      else (case readlines cs of [] \<Rightarrow> [[c]] | l # ls \<Rightarrow> (c # l) # ls))"

text \<open>\<open>s.split('=', 1)\<close> for a string that contains \<open>=\<close>: the parts before and after the first.\<close>

definition split_eq :: "string \<Rightarrow> string \<times> string" where
  "split_eq s = (takeWhile (\<lambda>c. c \<noteq> CHR ''='') s, tl (dropWhile (\<lambda>c. c \<noteq> CHR ''='') s))"

text \<open>
  A Python dict of settings: the keys in insertion order, each once. \<open>d[k] = v\<close> replaces
  the value of a key in place and appends a new key.
\<close>

type_synonym settings = "(string \<times> string) list"

fun dict_setitem :: "('k \<times> 'v) list \<Rightarrow> 'k \<Rightarrow> 'v \<Rightarrow> ('k \<times> 'v) list" where
  "dict_setitem [] k v = [(k, v)]"
| "dict_setitem ((k', v') # d) k v =
     (if k' = k then (k, v) # d else (k', v') # dict_setitem d k v)"

text \<open>\<open>{**a, **b}\<close>\<close>

definition dict_merge :: "settings \<Rightarrow> settings \<Rightarrow> settings" where
  "dict_merge a b = fold (\<lambda>(k, v) d. dict_setitem d k v) b a"

text \<open>The body of the loop of \<open>read_config\<close>, for one line of the file.\<close>

definition read_line :: "string \<Rightarrow> settings \<Rightarrow> settings" where
  "read_line raw st =
     (let line = strip raw
      in if line = [] \<or> hd line = CHR ''#'' then st
         else if CHR ''='' \<in> set line
         then (let (key, val) = split_eq line in dict_setitem st (strip key) (strip val))
         else st)"

text \<open>
  The file is \<open>None\<close> when the path does not exist. Errors of the operating system while
  an existing file is read or written are not part of the model.
\<close>

definition read_config :: "string option \<Rightarrow> settings" where
  "read_config file =
     (case file of
        None \<Rightarrow> []
      | Some text \<Rightarrow> fold read_line (readlines text) [])"

text \<open>
  The directory of the config file: the file itself and the backups beside it, by
  name. \<open>backup_config\<close> copies the file to a name made of the time stamp; a copy that
  fails is ignored by the source and is not modelled.
\<close>

record fs =
  conf :: "string option"
  backups :: "(string \<times> string) list"

definition backup_config :: "string \<Rightarrow> fs \<Rightarrow> fs" where
  "backup_config stamp f =
     (case conf f of
        None \<Rightarrow> f
      | Some text \<Rightarrow> f\<lparr>backups := dict_setitem (backups f) (''bitcoin.conf.backup.'' @ stamp) text\<rparr>)"

text \<open>The body of the first loop of \<open>write_config\<close>, on \<open>(new_lines, updated_keys)\<close>.\<close>

definition write_line :: "settings \<Rightarrow> string \<Rightarrow> string list \<times> string set \<Rightarrow> string list \<times> string set" where
  "write_line st line = (\<lambda>(new_lines, updated_keys).
     let stripped = strip line
     in if stripped = [] \<or> hd stripped = CHR ''#'' then (new_lines @ [line], updated_keys)
        else if CHR ''='' \<in> set stripped
        then (let key = strip (fst (split_eq stripped))
              in case map_of st key of
                   Some v \<Rightarrow> (new_lines @ [key @ ''='' @ v @ [NL]], insert key updated_keys)
                 | None \<Rightarrow> (new_lines @ [line], updated_keys))
        else (new_lines @ [line], updated_keys))"

text \<open>The second loop: the settings that were not in the file.\<close>

fun add_new :: "settings \<Rightarrow> string set \<Rightarrow> string list \<Rightarrow> string list" where
  "add_new [] updated_keys new_lines = new_lines"
| "add_new ((key, v) # rest) updated_keys new_lines =
     add_new rest updated_keys
       (if key \<notin> updated_keys
        then new_lines @ [[NL] @ ''# Added by NodePulse'' @ [NL] @ key @ ''='' @ v @ [NL]]
        else new_lines)"

definition write_config :: "settings \<Rightarrow> string \<Rightarrow> fs \<Rightarrow> fs \<times> (bool \<times> string)" where
  "write_config st stamp f =
     (case conf f of
        None \<Rightarrow> (f, (False, ''Config file not found''))
      | Some text \<Rightarrow>
          let f1 = backup_config stamp f;
              lines = readlines text;
              (new_lines, updated_keys) = fold (write_line st) lines ([], {});
              new_lines = add_new st updated_keys new_lines
          in (f1\<lparr>conf := Some (concat new_lines)\<rparr>, (True, ''Configuration saved successfully'')))"

text \<open>
  \<open>str.isdigit()\<close> on code points below 256: the ten decimal digits and the superscripts
  one, two and three. \<open>py_int\<close> is \<open>int(v)\<close> for a string of such characters: the decimal
  value, or \<open>None\<close> for the \<open>ValueError\<close> that a superscript raises. (The limit of CPython on
  the number of digits of a conversion is not modelled.)
\<close>

definition isdigit_char :: "char \<Rightarrow> bool" where
  "isdigit_char c = (c \<in> set ''0123456789'' \<or> c \<in> set [CHR 0xB2, CHR 0xB3, CHR 0xB9])"

definition isdigit :: "string \<Rightarrow> bool" where
  "isdigit v = (v \<noteq> [] \<and> (\<forall>c \<in> set v. isdigit_char c))"

definition digit_value :: "char \<Rightarrow> int" where
  "digit_value c = int (of_char c) - 48"

definition py_int :: "string \<Rightarrow> int option" where
  "py_int v =
     (if v \<noteq> [] \<and> (\<forall>c \<in> set v. c \<in> set ''0123456789'')
      then Some (foldl (\<lambda>acc c. 10 * acc + digit_value c) 0 v)
      else None)"

text \<open>
  The lambdas of \<open>validations\<close>; the result is \<open>None\<close> when the lambda raises. \<open>and\<close> and \<open>or\<close>
  evaluate their second operand only when needed.
\<close>

definition prune_rule :: "string \<Rightarrow> bool option" where
  "prune_rule v =
     (if v = ''0'' then Some True
      else if isdigit v then (case py_int v of None \<Rightarrow> None | Some n \<Rightarrow> Some (n \<ge> 550))
      else Some False)"

definition range_rule :: "int \<Rightarrow> int \<Rightarrow> string \<Rightarrow> bool option" where
  "range_rule lo hi v =
     (if isdigit v then (case py_int v of None \<Rightarrow> None | Some n \<Rightarrow> Some (lo \<le> n \<and> n \<le> hi))
      else Some False)"

definition validations :: "string \<Rightarrow> (string \<Rightarrow> bool option) option" where
  "validations key =
     (if key = ''prune'' then Some prune_rule
      else if key = ''maxconnections'' then Some (range_rule 8 125)
      else if key = ''dbcache'' then Some (range_rule 4 16384)
      else if key = ''rpcport'' then Some (range_rule 1024 65535)
      else None)"

definition validate_setting :: "string \<Rightarrow> string \<Rightarrow> bool \<times> string" where
  "validate_setting key v =
     (case validations key of
        Some rule \<Rightarrow>
          (case rule v of
             Some ok \<Rightarrow> if \<not> ok then (False, ''Invalid value for '' @ key) else (True, ''Valid'')
           | None \<Rightarrow> (False, ''Invalid value for '' @ key))
      | None \<Rightarrow> (True, ''Valid''))"

definition get_default_settings :: settings where
  "get_default_settings =
     [(''prune'', ''0''), (''maxconnections'', ''125''), (''dbcache'', ''450''),
      (''server'', ''0''), (''rpcport'', ''8332'')]"

section \<open>NodePulse: applying and resetting settings (class SettingsPanel)\<close>

record settings_panel =
  current_settings :: settings
  pending_changes :: settings

definition load_config :: "fs \<Rightarrow> settings_panel" where
  "load_config f = \<lparr>current_settings = read_config (conf f), pending_changes = []\<rparr>"

text \<open>The validation loop of \<open>apply_changes\<close>: the message of the first invalid entry.\<close>

fun validate_all :: "settings \<Rightarrow> string option" where
  "validate_all [] = None"
| "validate_all ((key, v) # rest) =
     (let (valid, msg) = validate_setting key v
      in if \<not> valid then Some msg else validate_all rest)"

text \<open>
  \<open>apply_changes\<close> and \<open>reset_to_defaults\<close> on the panel and the directory, with the answer
  of the confirmation dialog and the time stamp of the backup as inputs; they return
  the alerts they add. The offer to restart the node after a successful write is not
  modelled: it acts on the node process only. The check mark of the two success
  messages is U+2713, here as its bytes in UTF-8.
\<close>

definition apply_changes ::
  "bool \<Rightarrow> string \<Rightarrow> settings_panel \<times> fs \<Rightarrow> (settings_panel \<times> fs) \<times> alert list" where
  "apply_changes confirmed stamp = (\<lambda>(panel, f).
     if pending_changes panel = []
     then ((panel, f), [\<lparr>message = ''No changes to apply'', level = ''warning''\<rparr>])
     else if \<not> confirmed then ((panel, f), [])
     else
       case validate_all (pending_changes panel) of
         Some msg \<Rightarrow> ((panel, f), [\<lparr>message = ''Validation failed: '' @ msg, level = ''error''\<rparr>])
       | None \<Rightarrow>
           let new_settings = dict_merge (current_settings panel) (pending_changes panel);
               (f1, (success, msg)) = write_config new_settings stamp f
           in if success
              then ((load_config f1, f1),
                    [\<lparr>message = ''Configuration saved '' @ [CHR 0xE2, CHR 0x9C, CHR 0x93],
                      level = ''success''\<rparr>])
              else ((panel, f1), [\<lparr>message = ''Failed: '' @ msg, level = ''error''\<rparr>]))"

definition reset_to_defaults ::
  "bool \<Rightarrow> string \<Rightarrow> settings_panel \<times> fs \<Rightarrow> (settings_panel \<times> fs) \<times> alert list" where
  "reset_to_defaults confirmed stamp = (\<lambda>(panel, f).
     if \<not> confirmed then ((panel, f), [])
     else
       let defaults = get_default_settings;
           (f1, (success, msg)) = write_config defaults stamp f
       in if success
          then ((load_config f1, f1),
                [\<lparr>message = ''Reset to defaults '' @ [CHR 0xE2, CHR 0x9C, CHR 0x93],
                  level = ''success''\<rparr>])
          else ((panel, f1), [\<lparr>message = ''Failed: '' @ msg, level = ''error''\<rparr>]))"

section \<open>Vocabulary for the properties of the config store\<close>

text \<open>
  What one line of the file contributes to \<open>read_config\<close>: the key and the value of a
  key=value line, nothing for a blank line, a comment or a line without \<open>=\<close>. The key of a
  line is the key that \<open>write_config\<close> looks up for it.
\<close>

definition parse_line :: "string \<Rightarrow> (string \<times> string) option" where
  "parse_line raw =
     (let line = strip raw
      in if line = [] \<or> hd line = CHR ''#'' then None
         else if CHR ''='' \<in> set line
         then Some (strip (fst (split_eq line)), strip (snd (split_eq line)))
         else None)"

definition line_key :: "string \<Rightarrow> string option" where
  "line_key raw = map_option fst (parse_line raw)"

text \<open>
  A line as \<open>readlines\<close> returns it: not empty, with no newline before its last character; it is terminated when it ends with the newline. In a list of lines of a text, every line but the last is terminated.
\<close>

definition wf_line :: "string \<Rightarrow> bool" where
  "wf_line l = (l \<noteq> [] \<and> NL \<notin> set (butlast l))"

definition terminated :: "string \<Rightarrow> bool" where
  "terminated l = (wf_line l \<and> last l = NL)"

fun wf_lines :: "string list \<Rightarrow> bool" where
  "wf_lines [] = True"
| "wf_lines [l] = wf_line l"
| "wf_lines (l # l' # ls) = (terminated l \<and> wf_lines (l' # ls))"

text \<open>
  The content of a line: the line without its newline.
\<close>

definition chomp :: "string \<Rightarrow> string" where
  "chomp l = (if l \<noteq> [] \<and> last l = NL then butlast l else l)"

text \<open>
  What the first loop of \<open>write_config\<close> writes for a line of the file.
\<close>

definition rewrite :: "settings \<Rightarrow> string \<Rightarrow> string" where
  "rewrite st l =
     (case line_key l of
        None \<Rightarrow> l
      | Some k \<Rightarrow> (case map_of st k of None \<Rightarrow> l | Some v \<Rightarrow> k @ ''='' @ v @ [NL]))"

text \<open>
  What the second loop of \<open>write_config\<close> appends for a setting.
\<close>

definition added_chunk :: "string \<times> string \<Rightarrow> string" where
  "added_chunk = (\<lambda>(k, v). [NL] @ ''# Added by NodePulse'' @ [NL] @ k @ ''='' @ v @ [NL])"

text \<open>
  The lines of the config file of a directory.
\<close>

definition file_lines :: "fs \<Rightarrow> string list" where
  "file_lines f = (case conf f of None \<Rightarrow> [] | Some text \<Rightarrow> readlines text)"

text \<open>
  The keys that the first loop of \<open>write_config\<close> has found in the file.
\<close>

definition updated :: "settings \<Rightarrow> string list \<Rightarrow> string set" where
  "updated st ls = {k. \<exists>l \<in> set ls. line_key l = Some k \<and> map_of st k \<noteq> None}"

text \<open>
  Settings whose values contain no newline.
\<close>

definition clean :: "settings \<Rightarrow> bool" where
  "clean st = (\<forall>(k, v) \<in> set st. NL \<notin> set v)"

text \<open>
  The settings of the round trip, and what they do to an entry of the file.
\<close>

definition round_trip_settings :: settings where
  "round_trip_settings = [(''prune'', ''0''), (''maxconnections'', ''50'')]"

definition set_maxconn :: "string \<times> string \<Rightarrow> string \<times> string" where
  "set_maxconn = (\<lambda>(k, v). (k, if k = ''maxconnections'' then ''50'' else v))"

text \<open>
  A config file with a comment, a blank line, a line for \<open>maxconnections\<close> and a line for another key.
\<close>

definition example_conf :: string where
  "example_conf = ''# Bitcoin config'' @ [NL] @ [NL] @ ''maxconnections=125'' @ [NL] @ ''rpcuser=bob'' @ [NL]"

definition example_fs :: fs where
  "example_fs = \<lparr>conf = Some example_conf, backups = []\<rparr>"

section \<open>Vocabulary for the properties of a refresh cycle\<close>

text \<open>
  A process run fails when it raises, ends with a non-zero return code, or prints
  output that \<open>json.loads\<close> rejects. The chain-state query of a cycle has failed when
  \<open>blockchain_info\<close> is \<open>None\<close> after the exception tests.
\<close>

definition failed :: "'a cli_run \<Rightarrow> bool" where
  "failed r = (case r of Exited rc out \<Rightarrow> rc \<noteq> 0 \<or> out = None | _ \<Rightarrow> True)"

definition chain_state_failed :: "cycle \<Rightarrow> bool" where
  "chain_state_failed c = (blockchain_info (handle_exceptions c) = None)"

text \<open>The alerts of \<open>refresh_data\<close>, by name.\<close>

definition unresponsive_alert :: alert where
  "unresponsive_alert = \<lparr>message = ''Node not responding!'', level = ''error''\<rparr>"

definition restored_alert :: alert where
  "restored_alert = \<lparr>message = ''Node connection restored'', level = ''success''\<rparr>"

definition low_peer_alert :: "int \<Rightarrow> alert" where
  "low_peer_alert n = \<lparr>message = ''Low peer count: '' @ str_int n, level = ''warning''\<rparr>"

definition recovered_alert :: "int \<Rightarrow> alert" where
  "recovered_alert n = \<lparr>message = ''Peer count recovered: '' @ str_int n, level = ''success''\<rparr>"

text \<open>An alert about the peer count: its message starts with one of the two prefixes.\<close>

definition is_peer_alert :: "alert \<Rightarrow> bool" where
  "is_peer_alert a =
     (take 16 (message a) = ''Low peer count: '' \<or> take 22 (message a) = ''Peer count recovered: '')"

text \<open>
  The peer count that a cycle compares: present when the chain-state query succeeded and
  \<open>network_info\<close> is a non-empty dict.
\<close>

definition cycle_peer_count :: "cycle \<Rightarrow> int option" where
  "cycle_peer_count c =
     (case blockchain_info (handle_exceptions c) of
        None \<Rightarrow> None
      | Some bi \<Rightarrow>
          (case network_info (handle_exceptions c) of
             None \<Rightarrow> None
           | Some ni \<Rightarrow> if ni \<noteq> [] then Some (dict_get ni ''connections'' 0) else None))"

text \<open>The alerts of the peer-count block for a previous and a current count.\<close>

definition peer_alerts :: "int option \<Rightarrow> int \<Rightarrow> alert list" where
  "peer_alerts prev n =
     (case prev of
        None \<Rightarrow> []
      | Some p \<Rightarrow>
          if n < 3 \<and> p \<ge> 3 then [low_peer_alert n]
          else if n \<ge> 3 \<and> p < 3 then [recovered_alert n]
          else [])"


text \<open>A cycle in which all five queries succeed, with the given number of connections.\<close>

definition ok_cycle :: "int \<Rightarrow> cycle" where
  "ok_cycle n = dispatch ''sync'' True 0 (Exited 0 (Some [(''blocks'', 100), (''headers'', 100)]))
     (Exited 0 (Some [(''connections'', n)])) (Exited 0 (Some [])) (Exited 0 (Some [(''size'', 1)]))
     (Exited 0 (Some 77))"


text \<open>A cycle in which the chain-state query times out and the other four succeed.\<close>

definition failing_cycle :: cycle where
  "failing_cycle = dispatch ''sync'' True 0 Timeout
     (Exited 0 (Some [(''connections'', 8)])) (Exited 0 (Some [])) (Exited 0 (Some [(''size'', 1)]))
     (Exited 0 (Some 77))"

section \<open>Properties of the sync estimator\<close>

subsection \<open>What \<open>update\<close> returns\<close>

lemma update_returns: "snd (update tr now b h s) = py_and_not (was_syncing tr) s"
  by (simp add: update_def Let_def)

lemma update_was_syncing: "was_syncing (fst (update tr now b h s)) = Some s"
  by (simp add: update_def Let_def)

lemma truthy_py_and_not: "truthy (py_and_not w s) \<longleftrightarrow> w = Some True \<and> \<not> s"
  by (cases "(w, s)" rule: py_and_not.cases) auto

lemma updates_nth:
  "i < length cs \<Longrightarrow>
   truthy (updates tr cs ! i) \<longleftrightarrow>
     ((if i = 0 then was_syncing tr = Some True else c_syncing (cs ! (i - 1)))
      \<and> \<not> c_syncing (cs ! i))"
proof (induction cs arbitrary: tr i)
  case Nil
  then show ?case by simp
next
  case (Cons c cs)
  show ?case
  proof (cases i)
    case 0
    then show ?thesis
      by (simp add: update_call_def update_returns truthy_py_and_not)
  next
    case (Suc j)
    with Cons.prems have j: "j < length cs" by simp
    show ?thesis
      using Cons.IH [OF j, of "fst (update_call tr c)"] Suc
      by (cases j) (simp_all add: update_call_def update_was_syncing)
  qed
qed

text \<open>
  Claim C4. Starting from a fresh tracker, the value returned by the \<open>i\<close>-th call of
  \<open>update\<close> is true exactly when the syncing flag was true on the previous call and is
  false on this call. On every other call (the first call, where the result is Python's
  \<open>None\<close>, and every true-to-true, false-to-false and false-to-true pair) the result is
  not true.
\<close>

theorem update_sync_completed_edge:
  "i < length cs \<Longrightarrow>
   truthy (updates (init_tracker mh t0) cs ! i) \<longleftrightarrow>
     (0 < i \<and> c_syncing (cs ! (i - 1)) \<and> \<not> c_syncing (cs ! i))"
  using updates_nth [of i cs "init_tracker mh t0"]
  by (auto simp: init_tracker_def)

theorem update_sync_completed_edge_witness:
  "(3::nat) < length
      [\<lparr>c_now = 0, c_blocks = 1, c_headers = 5, c_syncing = False\<rparr>,
       \<lparr>c_now = 10, c_blocks = 2, c_headers = 5, c_syncing = True\<rparr>,
       \<lparr>c_now = 20, c_blocks = 4, c_headers = 5, c_syncing = True\<rparr>,
       \<lparr>c_now = 30, c_blocks = 5, c_headers = 5, c_syncing = False\<rparr>,
       \<lparr>c_now = 40, c_blocks = 5, c_headers = 5, c_syncing = False\<rparr>]
   \<and> truthy (updates (init_tracker 60 0)
      [\<lparr>c_now = 0, c_blocks = 1, c_headers = 5, c_syncing = False\<rparr>,
       \<lparr>c_now = 10, c_blocks = 2, c_headers = 5, c_syncing = True\<rparr>,
       \<lparr>c_now = 20, c_blocks = 4, c_headers = 5, c_syncing = True\<rparr>,
       \<lparr>c_now = 30, c_blocks = 5, c_headers = 5, c_syncing = False\<rparr>,
       \<lparr>c_now = 40, c_blocks = 5, c_headers = 5, c_syncing = False\<rparr>] ! 3)"
  using update_sync_completed_edge [of 3
      "[\<lparr>c_now = 0, c_blocks = 1, c_headers = 5, c_syncing = False\<rparr>,
       \<lparr>c_now = 10, c_blocks = 2, c_headers = 5, c_syncing = True\<rparr>,
       \<lparr>c_now = 20, c_blocks = 4, c_headers = 5, c_syncing = True\<rparr>,
       \<lparr>c_now = 30, c_blocks = 5, c_headers = 5, c_syncing = False\<rparr>,
       \<lparr>c_now = 40, c_blocks = 5, c_headers = 5, c_syncing = False\<rparr>]" 60 0]
  by simp

subsection \<open>The sign of the throughput\<close>

lemma sorted_drop_append: "sorted (xs @ ys) \<Longrightarrow> sorted (drop k xs @ ys)"
  by (auto simp: sorted_append dest: in_set_dropD intro: sorted_wrt_drop)

lemma history_update_call:
  "history (fst (update_call tr c)) =
     drop (Suc (length (history tr)) - max_history tr)
       (history tr @ [\<lparr>time = c_now c, blocks = c_blocks c, headers = c_headers c,
                        is_syncing = c_syncing c\<rparr>])"
  by (simp add: update_call_def update_def deque_append_def Let_def)

lemma times_update_call:
  "map time (history (fst (update_call tr c))) =
     drop (Suc (length (history tr)) - max_history tr) (map time (history tr) @ [c_now c])"
proof -
  have "map time (history tr) @ [c_now c] =
      map time (history tr @ [\<lparr>time = c_now c, blocks = c_blocks c, headers = c_headers c,
                                is_syncing = c_syncing c\<rparr>])"
    by simp
  then show ?thesis
    by (simp only: history_update_call drop_map)
qed

lemma feed_times_sorted:
  "sorted (map time (history tr) @ map c_now cs) \<Longrightarrow> sorted (map time (history (feed tr cs)))"
proof (induction cs arbitrary: tr)
  case Nil
  then show ?case by simp
next
  case (Cons c cs)
  have "sorted ((map time (history tr) @ [c_now c]) @ map c_now cs)"
    using Cons.prems by simp
  then have "sorted (map time (history (fst (update_call tr c))) @ map c_now cs)"
    unfolding times_update_call by (rule sorted_drop_append)
  then show ?case
    using Cons.IH by simp
qed

lemma sorted_hd_last: "sorted xs \<Longrightarrow> xs \<noteq> [] \<Longrightarrow> hd xs \<le> (last xs :: int)"
  by (cases xs) auto

lemma length_recent_data: "length (recent_data tr) = min (length (history tr)) 12"
  by (auto simp: recent_data_def)

lemma recent_times:
  assumes "sorted (map time (history tr))" and "recent_data tr \<noteq> []"
  shows "time (hd (recent_data tr)) \<le> time (last (recent_data tr))"
proof -
  have "sorted (map time (recent_data tr))"
    using assms(1) by (simp add: recent_data_def sorted_wrt_drop flip: drop_map)
  from sorted_hd_last [OF this] assms(2) show ?thesis
    by (simp add: hd_map last_map)
qed

lemma bph_sign:
  assumes "time (hd (recent_data tr)) \<le> time (last (recent_data tr))"
  shows "0 \<le> get_blocks_per_hour tr \<longleftrightarrow>
     (length (history tr) < 2 \<or> time (hd (recent_data tr)) = time (last (recent_data tr))
       \<or> blocks (hd (recent_data tr)) \<le> blocks (last (recent_data tr)))"
proof (cases "length (history tr) < 2 \<or> time (hd (recent_data tr)) = time (last (recent_data tr))")
  case True
  then show ?thesis
    by (auto simp: get_blocks_per_hour_def total_seconds_def Let_def)
next
  case False
  then have "time (hd (recent_data tr)) < time (last (recent_data tr))"
    using assms by simp
  then have "0 < total_seconds (time (last (recent_data tr)) - time (hd (recent_data tr))) / 3600"
    by (simp add: total_seconds_def)
  with False show ?thesis
    by (auto simp: get_blocks_per_hour_def Let_def zero_le_divide_iff length_recent_data)
qed

lemma bph_reorg:
  "get_blocks_per_hour (feed (init_tracker 60 0)
      [\<lparr>c_now = 0, c_blocks = 100, c_headers = 200, c_syncing = True\<rparr>,
       \<lparr>c_now = 3600000000, c_blocks = 90, c_headers = 200, c_syncing = True\<rparr>]) = - 10"
  by (simp add: init_tracker_def update_call_def update_def deque_append_def
      get_blocks_per_hour_def recent_data_def total_seconds_def Let_def)

lemma bph_growing:
  "get_blocks_per_hour (feed (init_tracker 60 0)
      [\<lparr>c_now = 0, c_blocks = 100, c_headers = 200, c_syncing = True\<rparr>,
       \<lparr>c_now = 3600000000, c_blocks = 110, c_headers = 200, c_syncing = True\<rparr>]) = 10"
  by (simp add: init_tracker_def update_call_def update_def deque_append_def
      get_blocks_per_hour_def recent_data_def total_seconds_def Let_def)

text \<open>
  Claim C1, as stated, fails: \<open>get_blocks_per_hour\<close> divides the height difference by the
  elapsed hours and does not clamp it. Two samples one hour apart, the second ten blocks
  below the first (a reorg), give \<open>-10\<close> blocks per hour.
\<close>

theorem get_blocks_per_hour_reorg_counterexample:
  "\<not> 0 \<le> get_blocks_per_hour (feed (init_tracker 60 0)
      [\<lparr>c_now = 0, c_blocks = 100, c_headers = 200, c_syncing = True\<rparr>,
       \<lparr>c_now = 3600000000, c_blocks = 90, c_headers = 200, c_syncing = True\<rparr>])"
  unfolding bph_reorg by simp

text \<open>
  Claim C1, amended. For every sequence of samples fed through \<open>update\<close> to a fresh tracker
  with time stamps that never go backwards, the throughput is \<open>\<ge> 0\<close> exactly when fewer
  than two samples are retained, or no time has elapsed across the trailing window of
  at most 12 samples, or the newest height of that window is not below its oldest
  height. A height decrease across the window is not clamped: the rate is negative.
\<close>

theorem get_blocks_per_hour_sign:
  assumes "sorted (map c_now cs)" and "tr = feed (init_tracker mh t0) cs"
  shows "0 \<le> get_blocks_per_hour tr \<longleftrightarrow>
     (length (history tr) < 2 \<or> time (hd (recent_data tr)) = time (last (recent_data tr))
       \<or> blocks (hd (recent_data tr)) \<le> blocks (last (recent_data tr)))"
proof (cases "length (history tr) < 2")
  case True
  then show ?thesis by (simp add: get_blocks_per_hour_def)
next
  case False
  then have ne: "recent_data tr \<noteq> []"
    by (auto simp: recent_data_def)
  have "sorted (map time (history tr))"
    using feed_times_sorted [of "init_tracker mh t0" cs] assms
    by (simp add: init_tracker_def)
  from bph_sign [OF recent_times [OF this ne]] show ?thesis .
qed

theorem get_blocks_per_hour_sign_witness:
  "sorted (map c_now
      [\<lparr>c_now = 0, c_blocks = 100, c_headers = 200, c_syncing = True\<rparr>,
       \<lparr>c_now = 3600000000, c_blocks = 110, c_headers = 200, c_syncing = True\<rparr>])
   \<and> 0 \<le> get_blocks_per_hour (feed (init_tracker 60 0)
      [\<lparr>c_now = 0, c_blocks = 100, c_headers = 200, c_syncing = True\<rparr>,
       \<lparr>c_now = 3600000000, c_blocks = 110, c_headers = 200, c_syncing = True\<rparr>])"
proof -
  let ?cs = "[\<lparr>c_now = 0, c_blocks = 100, c_headers = 200, c_syncing = True\<rparr>,
       \<lparr>c_now = 3600000000, c_blocks = 110, c_headers = 200, c_syncing = True\<rparr>]"
  have s: "sorted (map c_now ?cs)" by simp
  have "blocks (hd (recent_data (feed (init_tracker 60 0) ?cs)))
      \<le> blocks (last (recent_data (feed (init_tracker 60 0) ?cs)))"
    by (simp add: init_tracker_def update_call_def update_def deque_append_def
        recent_data_def Let_def)
  with get_blocks_per_hour_sign [OF s refl, of 60 0] s show ?thesis
    by blast
qed

subsection \<open>The estimated time of arrival\<close>

text \<open>
  Claim C5, as stated, fails where it promises a positive duration: with the negative
  throughput of the reorg above and 110 blocks remaining, \<open>get_eta\<close> returns \<open>-11\<close> hours.
\<close>

theorem get_eta_negative_counterexample:
  "get_eta (feed (init_tracker 60 0)
      [\<lparr>c_now = 0, c_blocks = 100, c_headers = 200, c_syncing = True\<rparr>,
       \<lparr>c_now = 3600000000, c_blocks = 90, c_headers = 200, c_syncing = True\<rparr>]) 90 200
     = Some (- 11)"
  unfolding get_eta_def bph_reorg by simp

text \<open>
  Claim C5, amended. \<open>get_eta\<close> returns an absent value exactly when the throughput is 0 or
  the current height is at or above the header height; fewer than two samples give an
  absent value; in every other case it returns the quotient of the remaining blocks by
  the throughput, which is positive exactly when the throughput is positive (and
  negative when the height of the window has decreased).
\<close>

theorem get_eta_cases:
  "(get_eta tr c t = None \<longleftrightarrow> get_blocks_per_hour tr = 0 \<or> t \<le> c) \<and>
   (length (history tr) < 2 \<longrightarrow> get_eta tr c t = None) \<and>
   (get_blocks_per_hour tr \<noteq> 0 \<and> c < t \<longrightarrow>
      get_eta tr c t = Some (of_int (t - c) / get_blocks_per_hour tr) \<and>
      (0 < of_int (t - c) / get_blocks_per_hour tr \<longleftrightarrow> 0 < get_blocks_per_hour tr))"
  by (auto simp: get_eta_def Let_def get_blocks_per_hour_def zero_less_divide_iff)

theorem get_eta_cases_witness:
  "get_blocks_per_hour (feed (init_tracker 60 0)
      [\<lparr>c_now = 0, c_blocks = 100, c_headers = 200, c_syncing = True\<rparr>,
       \<lparr>c_now = 3600000000, c_blocks = 110, c_headers = 200, c_syncing = True\<rparr>]) \<noteq> 0
   \<and> (110::int) < 200
   \<and> get_eta (feed (init_tracker 60 0)
      [\<lparr>c_now = 0, c_blocks = 100, c_headers = 200, c_syncing = True\<rparr>,
       \<lparr>c_now = 3600000000, c_blocks = 110, c_headers = 200, c_syncing = True\<rparr>]) 110 200
     = Some 9"
  using get_eta_cases [of "feed (init_tracker 60 0)
      [\<lparr>c_now = 0, c_blocks = 100, c_headers = 200, c_syncing = True\<rparr>,
       \<lparr>c_now = 3600000000, c_blocks = 110, c_headers = 200, c_syncing = True\<rparr>]" 110 200]
  unfolding bph_growing by simp


section \<open>Properties of the refresh cycle\<close>

lemma failed_run_command: "failed r \<longleftrightarrow> run_command r = None"
  by (cases r) (auto simp: failed_def)

lemma emit_snd: "snd (emit m l (s, out)) = out @ [\<lparr>message = m, level = l\<rparr>]"
  by (simp add: emit_def)

lemma emit_fst:
  "fst (emit m l (s, out)) = s\<lparr>alerts_panel := add_alert (alerts_panel s) m l\<rparr>"
  by (simp add: emit_def)

lemma check_peers_snd:
  "snd (check_peers ni (s, out)) = out @ peer_alerts (last_peer_count s) (dict_get ni ''connections'' 0)"
  by (simp add: check_peers_def peer_alerts_def emit_def low_peer_alert_def recovered_alert_def Let_def
      split: option.splits)

lemma check_peers_fst:
  "last_peer_count (fst (check_peers ni (s, out))) = Some (dict_get ni ''connections'' 0)"
  "node_was_responsive (fst (check_peers ni (s, out))) = node_was_responsive s"
  by (simp_all add: check_peers_def emit_def Let_def split: option.splits)

lemma refresh_alerts:
  "snd (refresh_data s c) =
     (case blockchain_info (handle_exceptions c) of
        None \<Rightarrow> (if node_was_responsive s then [unresponsive_alert] else [])
      | Some bi \<Rightarrow>
          (if node_was_responsive s then [] else [restored_alert])
          @ (if truthy (snd (update (tracker s) (clock c) (dict_get bi ''blocks'' 0)
                 (dict_get bi ''headers'' 0) (dict_get bi ''initialblockdownload'' 0 \<noteq> 0)))
             then [\<lparr>message = sync_completed_message, level = ''success''\<rparr>] else [])
          @ (case cycle_peer_count c of None \<Rightarrow> [] | Some n \<Rightarrow> peer_alerts (last_peer_count s) n))"
  by (simp add: refresh_data_def Let_def emit_def cycle_peer_count_def unresponsive_alert_def
      restored_alert_def check_peers_snd split_beta
      split: option.splits)

lemma refresh_responsive:
  "node_was_responsive (fst (refresh_data s c)) = (\<not> chain_state_failed c)"
  by (simp add: refresh_data_def Let_def emit_def chain_state_failed_def check_peers_fst split_beta
      split: option.splits)

lemma refresh_last_peer_count:
  "last_peer_count (fst (refresh_data s c)) =
     (case cycle_peer_count c of None \<Rightarrow> last_peer_count s | Some n \<Rightarrow> Some n)"
  by (simp add: refresh_data_def Let_def emit_def cycle_peer_count_def check_peers_fst split_beta
      split: option.splits)

lemma count_unresponsive:
  "count_list (snd (refresh_data s c)) unresponsive_alert =
     (if chain_state_failed c \<and> node_was_responsive s then 1 else 0)"
  by (auto simp: refresh_alerts chain_state_failed_def unresponsive_alert_def restored_alert_def
      peer_alerts_def low_peer_alert_def recovered_alert_def sync_completed_message_def
      split: option.splits)

lemma count_restored:
  "count_list (snd (refresh_data s c)) restored_alert =
     (if \<not> chain_state_failed c \<and> \<not> node_was_responsive s then 1 else 0)"
  by (auto simp: refresh_alerts chain_state_failed_def unresponsive_alert_def restored_alert_def
      peer_alerts_def low_peer_alert_def recovered_alert_def sync_completed_message_def
      split: option.splits)

lemma run_cycles_length: "length (run_cycles s cs) = length cs"
  by (induction cs arbitrary: s) auto

lemma run_cycles_edges:
  "i < length cs \<Longrightarrow>
   count_list (run_cycles s cs ! i) unresponsive_alert =
     (if chain_state_failed (cs ! i) \<and>
         (if i = 0 then node_was_responsive s else \<not> chain_state_failed (cs ! (i - 1)))
      then 1 else 0)
   \<and> count_list (run_cycles s cs ! i) restored_alert =
     (if \<not> chain_state_failed (cs ! i) \<and>
         (if i = 0 then \<not> node_was_responsive s else chain_state_failed (cs ! (i - 1)))
      then 1 else 0)"
proof (induction cs arbitrary: s i)
  case Nil
  then show ?case by simp
next
  case (Cons c cs)
  show ?case
  proof (cases i)
    case 0
    then show ?thesis
      by (simp add: count_unresponsive count_restored)
  next
    case (Suc j)
    with Cons.prems have j: "j < length cs" by simp
    show ?thesis
      using Cons.IH [OF j, of "fst (refresh_data s c)"] Suc
      by (cases j) (simp_all add: refresh_responsive)
  qed
qed

lemma snapshot_dispatch:
  "handle_exceptions (dispatch tab running t rb rn rp rm ru) =
     \<lparr>blockchain_info = run_command rb, network_info = run_command rn,
      peer_info = run_command rp, mempool_info = run_command rm,
      uptime = (case run_command ru of Some u \<Rightarrow> u | None \<Rightarrow> 0)\<rparr>"
  by (simp add: handle_exceptions_def dispatch_def get_blockchain_info_def get_network_info_def
      get_peer_info_def get_mempool_info_def get_uptime_def)

lemma dispatch_sel:
  "active_tab (dispatch tab running t rb rn rp rm ru) = tab"
  "node_running (dispatch tab running t rb rn rp rm ru) = running"
  by (simp_all add: dispatch_def)

lemma check_peers_dashboard:
  "dashboard_panel (fst (check_peers ni (s, out))) = dashboard_panel s"
  by (simp add: check_peers_def emit_def Let_def split: option.splits)

lemma refresh_dashboard_home:
  "active_tab c = ''home'' \<Longrightarrow>
   dashboard_panel (fst (refresh_data s c)) =
     update_data (node_running c) (blockchain_info (handle_exceptions c))
       (network_info (handle_exceptions c)) (uptime (handle_exceptions c))"
  by (simp add: refresh_data_def Let_def emit_def check_peers_dashboard split_beta
      split: option.splits)

text \<open>
  Claim C2. In a cycle where the chain-state query fails (process error, time-out,
  non-zero return code or malformed output) and the other four queries succeed, the
  values of the cycle have \<open>blockchain_info\<close> absent and the other four present as
  returned, and this is what the dashboard is given on the home tab. In every run of
  cycles from the initial state, the alert "Node not responding!" is emitted exactly
  once in a cycle whose chain-state query fails when it is the first cycle or follows a
  cycle whose query succeeded, and in no other cycle; "Node connection restored" is
  emitted exactly once in a cycle whose query succeeds right after a failed one, and in
  no other cycle.
\<close>

theorem chain_state_failure:
  "(failed rb \<and> run_command rn = Some n \<and> run_command rp = Some p \<and>
    run_command rm = Some m \<and> run_command ru = Some u \<longrightarrow>
      handle_exceptions (dispatch tab running t rb rn rp rm ru) =
        \<lparr>blockchain_info = None, network_info = Some n, peer_info = Some p,
         mempool_info = Some m, uptime = u\<rparr>
      \<and> chain_state_failed (dispatch tab running t rb rn rp rm ru)
      \<and> dashboard_panel (fst (refresh_data s (dispatch ''home'' running t rb rn rp rm ru))) =
          \<lparr>d_node_running = running, d_blockchain_info = None, d_network_info = Some n, d_uptime = u\<rparr>)
   \<and> (i < length cs \<longrightarrow>
      count_list (run_cycles (init_app t0) cs ! i) unresponsive_alert =
        (if chain_state_failed (cs ! i) \<and> (i = 0 \<or> \<not> chain_state_failed (cs ! (i - 1)))
         then 1 else 0)
      \<and> count_list (run_cycles (init_app t0) cs ! i) restored_alert =
        (if \<not> chain_state_failed (cs ! i) \<and> 0 < i \<and> chain_state_failed (cs ! (i - 1))
         then 1 else 0))"
proof -
  have a: "failed rb \<and> run_command rn = Some n \<and> run_command rp = Some p \<and>
    run_command rm = Some m \<and> run_command ru = Some u \<longrightarrow>
      handle_exceptions (dispatch tab running t rb rn rp rm ru) =
        \<lparr>blockchain_info = None, network_info = Some n, peer_info = Some p,
         mempool_info = Some m, uptime = u\<rparr>
      \<and> chain_state_failed (dispatch tab running t rb rn rp rm ru)
      \<and> dashboard_panel (fst (refresh_data s (dispatch ''home'' running t rb rn rp rm ru))) =
          \<lparr>d_node_running = running, d_blockchain_info = None, d_network_info = Some n, d_uptime = u\<rparr>"
    by (simp add: snapshot_dispatch failed_run_command chain_state_failed_def
        refresh_dashboard_home dispatch_sel update_data_def)
  have b: "i < length cs \<longrightarrow>
      count_list (run_cycles (init_app t0) cs ! i) unresponsive_alert =
        (if chain_state_failed (cs ! i) \<and> (i = 0 \<or> \<not> chain_state_failed (cs ! (i - 1)))
         then 1 else 0)
      \<and> count_list (run_cycles (init_app t0) cs ! i) restored_alert =
        (if \<not> chain_state_failed (cs ! i) \<and> 0 < i \<and> chain_state_failed (cs ! (i - 1))
         then 1 else 0)"
    using run_cycles_edges [of i cs "init_app t0"]
    by (auto simp: init_app_def)
  from a b show ?thesis by (rule conjI)
qed

theorem chain_state_failure_witness:
  "failed (Timeout :: json_object cli_run)
   \<and> handle_exceptions (dispatch ''sync'' True 0 Timeout (Exited 0 (Some [(''connections'', 8)]))
        (Exited 0 (Some [])) (Exited 0 (Some [(''size'', 1)])) (Exited 0 (Some 77))) =
        \<lparr>blockchain_info = None, network_info = Some [(''connections'', 8)], peer_info = Some [],
         mempool_info = Some [(''size'', 1)], uptime = 77\<rparr>
   \<and> (1::nat) < length [failing_cycle, failing_cycle, ok_cycle 8]
   \<and> count_list (run_cycles (init_app 0) [failing_cycle, failing_cycle, ok_cycle 8] ! 1)
        unresponsive_alert = 0"
  using chain_state_failure [where rb = Timeout and rn = "Exited 0 (Some [(''connections'', 8)])"
      and n = "[(''connections'', 8)]" and rp = "Exited 0 (Some [])" and p = "[]"
      and rm = "Exited 0 (Some [(''size'', 1)])" and m = "[(''size'', 1)]"
      and ru = "Exited 0 (Some 77)" and u = 77 and tab = "''sync''" and running = True and t = 0
      and s = "init_app 0" and i = 1 and cs = "[failing_cycle, failing_cycle, ok_cycle 8]" and ?t0.0 = 0]
  by (simp add: failed_def chain_state_failed_def failing_cycle_def snapshot_dispatch)

lemma is_peer_alert_simps:
  "\<not> is_peer_alert unresponsive_alert"
  "\<not> is_peer_alert restored_alert"
  "\<not> is_peer_alert \<lparr>message = sync_completed_message, level = ''success''\<rparr>"
  "is_peer_alert (low_peer_alert n)"
  "is_peer_alert (recovered_alert n)"
  by (simp_all add: is_peer_alert_def unresponsive_alert_def restored_alert_def
      sync_completed_message_def low_peer_alert_def recovered_alert_def)

lemma filter_peer_alerts: "filter is_peer_alert (peer_alerts prev n) = peer_alerts prev n"
  by (simp add: peer_alerts_def is_peer_alert_simps split: option.splits)

lemma refresh_peer_alerts:
  "filter is_peer_alert (snd (refresh_data s c)) =
     (case cycle_peer_count c of None \<Rightarrow> [] | Some n \<Rightarrow> peer_alerts (last_peer_count s) n)"
proof (cases "blockchain_info (handle_exceptions c)")
  case None
  then show ?thesis
    by (simp add: refresh_alerts is_peer_alert_simps cycle_peer_count_def)
next
  case (Some bi)
  then show ?thesis
    by (simp add: refresh_alerts is_peer_alert_simps filter_peer_alerts split: option.splits)
qed

lemma run_cycles_peer_alerts:
  "0 < i \<Longrightarrow> i < length cs \<Longrightarrow> cycle_peer_count (cs ! (i - 1)) = Some p \<Longrightarrow>
   cycle_peer_count (cs ! i) = Some q \<Longrightarrow>
   filter is_peer_alert (run_cycles s cs ! i) = peer_alerts (Some p) q"
proof (induction cs arbitrary: s i)
  case Nil
  then show ?case by simp
next
  case (Cons c cs)
  from Cons.prems obtain j where i: "i = Suc j" and j: "j < length cs"
    by (cases i) auto
  show ?case
  proof (cases j)
    case 0
    with Cons.prems i obtain d ds where cs: "cs = d # ds"
      by (cases cs) auto
    with Cons.prems i 0 show ?thesis
      by (simp add: refresh_peer_alerts refresh_last_peer_count)
  next
    case (Suc k)
    with Cons.prems i j Cons.IH [of j "fst (refresh_data s c)"] show ?thesis
      by simp
  qed
qed

lemma first_cycle_peer_alerts:
  "filter is_peer_alert (snd (refresh_data (init_app t0) c)) = []"
  by (simp add: refresh_peer_alerts init_app_def peer_alerts_def split: option.splits)

text \<open>
  Claim C6. For every run of five cycles from the initial state whose peer counts are
  5, 5, 2, 2, 4, the alerts about the peer count are: none in cycles 0, 1 and 3, the
  low-peer-count warning in cycle 2, the recovery alert in cycle 4. In every run, a cycle
  whose peer count \<open>q\<close> follows a cycle with peer count \<open>p\<close> emits the warning exactly when
  \<open>q < 3 \<le> p\<close>, the recovery alert exactly when \<open>p < 3 \<le> q\<close>, and nothing about peers when
  both are below 3 or both are at least 3.
\<close>

theorem peer_count_edges:
  "(map cycle_peer_count cs = [Some 5, Some 5, Some 2, Some 2, Some 4] \<longrightarrow>
      map (filter is_peer_alert) (run_cycles (init_app t0) cs) =
        [[], [], [low_peer_alert 2], [], [recovered_alert 4]])
   \<and> (0 < i \<and> i < length ds \<and> cycle_peer_count (ds ! (i - 1)) = Some p \<and>
      cycle_peer_count (ds ! i) = Some q \<longrightarrow>
      filter is_peer_alert (run_cycles s ds ! i) =
        (if q < 3 \<and> 3 \<le> p then [low_peer_alert q]
         else if 3 \<le> q \<and> p < 3 then [recovered_alert q]
         else []))"
proof (rule conjI)
  show "map cycle_peer_count cs = [Some 5, Some 5, Some 2, Some 2, Some 4] \<longrightarrow>
      map (filter is_peer_alert) (run_cycles (init_app t0) cs) =
        [[], [], [low_peer_alert 2], [], [recovered_alert 4]]"
  proof
    assume "map cycle_peer_count cs = [Some 5, Some 5, Some 2, Some 2, Some 4]"
    then obtain c0 c1 c2 c3 c4 where cs: "cs = [c0, c1, c2, c3, c4]"
      and pc: "cycle_peer_count c0 = Some 5" "cycle_peer_count c1 = Some 5"
        "cycle_peer_count c2 = Some 2" "cycle_peer_count c3 = Some 2"
        "cycle_peer_count c4 = Some 4"
      by (auto simp: map_eq_Cons_conv)
    show "map (filter is_peer_alert) (run_cycles (init_app t0) cs) =
        [[], [], [low_peer_alert 2], [], [recovered_alert 4]]"
      unfolding cs
      by (simp add: refresh_peer_alerts refresh_last_peer_count pc peer_alerts_def init_app_def)
  qed
next
  show "0 < i \<and> i < length ds \<and> cycle_peer_count (ds ! (i - 1)) = Some p \<and>
      cycle_peer_count (ds ! i) = Some q \<longrightarrow>
      filter is_peer_alert (run_cycles s ds ! i) =
        (if q < 3 \<and> 3 \<le> p then [low_peer_alert q]
         else if 3 \<le> q \<and> p < 3 then [recovered_alert q]
         else [])"
    using run_cycles_peer_alerts [of i ds p q s]
    by (simp add: peer_alerts_def)
qed

lemma ok_cycle_peer_count: "cycle_peer_count (ok_cycle n) = Some n"
  by (simp add: ok_cycle_def cycle_peer_count_def snapshot_dispatch dict_get_def)

theorem peer_count_edges_witness:
  "map cycle_peer_count (map ok_cycle [5, 5, 2, 2, 4]) = [Some 5, Some 5, Some 2, Some 2, Some 4]
   \<and> map (filter is_peer_alert) (run_cycles (init_app 0) (map ok_cycle [5, 5, 2, 2, 4])) =
        [[], [], [\<lparr>message = ''Low peer count: 2'', level = ''warning''\<rparr>], [],
         [\<lparr>message = ''Peer count recovered: 4'', level = ''success''\<rparr>]]
   \<and> (0::nat) < 1 \<and> (1::nat) < length (map ok_cycle [2, 2])
   \<and> filter is_peer_alert (run_cycles (init_app 0) (map ok_cycle [2, 2]) ! 1) = []"
  using peer_count_edges [of "map ok_cycle [5, 5, 2, 2, 4]" 0 1 "map ok_cycle [2, 2]" 2 2 "init_app 0"]
  by (simp add: ok_cycle_peer_count low_peer_alert_def recovered_alert_def str_int_def str_nat.simps)

text \<open>
  Claim C3, amended. When the chain-state, network, peer or mempool query fails, its
  value in the cycle is absent (\<open>None\<close>). The uptime is the exception: when the uptime
  query fails, or its coroutine raises, \<open>BitcoinNodeData.get_uptime\<close> and \<open>refresh_data\<close>
  give the value 0; only \<open>BitcoinNodeController.get_uptime\<close> gives an absent value.
\<close>

theorem failed_query_fields:
  "(failed rb \<longrightarrow> blockchain_info (handle_exceptions (dispatch tab running t rb rn rp rm ru)) = None)
   \<and> (failed rn \<longrightarrow> network_info (handle_exceptions (dispatch tab running t rb rn rp rm ru)) = None)
   \<and> (failed rp \<longrightarrow> peer_info (handle_exceptions (dispatch tab running t rb rn rp rm ru)) = None)
   \<and> (failed rm \<longrightarrow> mempool_info (handle_exceptions (dispatch tab running t rb rn rp rm ru)) = None)
   \<and> (failed ru \<longrightarrow> uptime (handle_exceptions (dispatch tab running t rb rn rp rm ru)) = 0
        \<and> get_uptime ru = 0 \<and> controller_get_uptime ru = None)
   \<and> (g_uptime c = RaisedException \<longrightarrow> uptime (handle_exceptions c) = 0)"
proof -
  have "g_uptime c = RaisedException \<longrightarrow> uptime (handle_exceptions c) = 0"
    by (simp add: handle_exceptions_def)
  moreover have "failed ru \<longrightarrow> controller_get_uptime ru = None"
    by (cases ru) (auto simp: failed_def)
  ultimately show ?thesis
    by (simp add: snapshot_dispatch failed_run_command get_uptime_def)
qed

theorem failed_query_fields_witness:
  "failed (Timeout :: json_object cli_run) \<and> failed (Exited 1 (Some 5) :: int cli_run)
   \<and> blockchain_info (handle_exceptions (dispatch ''home'' True 0 Timeout Timeout Timeout Timeout (Exited 1 (Some 5)))) = None
   \<and> uptime (handle_exceptions (dispatch ''home'' True 0 Timeout Timeout Timeout Timeout (Exited 1 (Some 5)))) = 0"
  using failed_query_fields [of Timeout "''home''" True 0 Timeout Timeout Timeout "Exited 1 (Some 5)"]
  by (simp add: failed_def)

text \<open>
  Claim C3, as stated, fails for the uptime: with four successful queries and an uptime
  query that times out, the uptime of the cycle is 0, not absent.
\<close>

theorem uptime_zero_counterexample:
  "uptime (handle_exceptions (dispatch ''home'' True 0
      (Exited 0 (Some [(''blocks'', 100)])) (Exited 0 (Some [(''connections'', 8)]))
      (Exited 0 (Some [])) (Exited 0 (Some [(''size'', 1)])) Timeout)) = 0"
  by (simp add: snapshot_dispatch)

section \<open>Properties of the config store\<close>

subsection \<open>Reading\<close>

lemma read_line_parse:
  "read_line raw st = (case parse_line raw of None \<Rightarrow> st | Some (k, v) \<Rightarrow> dict_setitem st k v)"
  by (simp add: read_line_def parse_line_def Let_def split_beta)

lemma map_of_dict_setitem: "map_of (dict_setitem d k v) = (map_of d)(k \<mapsto> v)"
  by (induction d k v rule: dict_setitem.induct) (auto simp: fun_upd_twist)

lemma fold_read_line_other:
  "\<forall>l \<in> set ls. line_key l \<noteq> Some k \<Longrightarrow> map_of (fold read_line ls st) k = map_of st k"
proof (induction ls arbitrary: st)
  case Nil
  then show ?case by simp
next
  case (Cons l ls)
  then have "map_of (read_line l st) k = map_of st k"
    by (auto simp: read_line_parse line_key_def map_of_dict_setitem split: option.splits)
  with Cons show ?case by simp
qed

text \<open>
  Claim C10. When a line of the file parses to key \<open>k\<close> and value \<open>v\<close> and no later line has
  key \<open>k\<close>, \<open>read_config\<close> returns \<open>v\<close> for \<open>k\<close>, whatever earlier lines assigned to \<open>k\<close>:
  the last key=value line of a key wins.
\<close>

theorem read_config_last_wins:
  assumes "readlines text = pre @ l # post"
    and "parse_line l = Some (k, v)"
    and "\<forall>l' \<in> set post. line_key l' \<noteq> Some k"
  shows "map_of (read_config (Some text)) k = Some v"
proof -
  have "map_of (read_config (Some text)) k =
      map_of (fold read_line post (read_line l (fold read_line pre []))) k"
    by (simp add: read_config_def assms(1))
  also have "\<dots> = map_of (read_line l (fold read_line pre [])) k"
    using assms(3) by (rule fold_read_line_other)
  also have "\<dots> = Some v"
    by (simp add: read_line_parse assms(2) map_of_dict_setitem)
  finally show ?thesis .
qed

theorem read_config_last_wins_witness:
  "readlines (''a=1'' @ [NL] @ ''# a=2'' @ [NL] @ ''a = 3'' @ [NL] @ ''b=4'' @ [NL])
     = [''a=1'' @ [NL], ''# a=2'' @ [NL]] @ (''a = 3'' @ [NL]) # [''b=4'' @ [NL]]
   \<and> parse_line (''a = 3'' @ [NL]) = Some (''a'', ''3'')
   \<and> line_key (''b=4'' @ [NL]) = Some ''b''
   \<and> map_of (read_config (Some (''a=1'' @ [NL] @ ''# a=2'' @ [NL] @ ''a = 3'' @ [NL] @ ''b=4'' @ [NL]))) ''a''
       = Some ''3''"
proof -
  have 1: "readlines (''a=1'' @ [NL] @ ''# a=2'' @ [NL] @ ''a = 3'' @ [NL] @ ''b=4'' @ [NL])
     = [''a=1'' @ [NL], ''# a=2'' @ [NL]] @ (''a = 3'' @ [NL]) # [''b=4'' @ [NL]]"
    by simp
  have 2: "parse_line (''a = 3'' @ [NL]) = Some (''a'', ''3'')"
    by (simp add: parse_line_def strip_def isspace_def split_eq_def)
  have 3: "\<forall>l' \<in> set [''b=4'' @ [NL]]. line_key l' \<noteq> Some ''a''"
    by (simp add: line_key_def parse_line_def strip_def isspace_def split_eq_def)
  have 4: "line_key (''b=4'' @ [NL]) = Some ''b''"
    by (simp add: line_key_def parse_line_def strip_def isspace_def split_eq_def)
  from read_config_last_wins [OF 1 2 3] 1 2 4 show ?thesis by blast
qed

subsection \<open>Validation\<close>

lemma py_int_isdigit:
  assumes "py_int v = Some n"
  shows "isdigit v"
proof -
  from assms have "v \<noteq> [] \<and> (\<forall>c \<in> set v. c \<in> set ''0123456789'')"
    unfolding py_int_def by (meson option.distinct(1))
  then show ?thesis
    unfolding isdigit_def isdigit_char_def by blast
qed

lemma range_rule_iff:
  "range_rule lo hi v = Some True \<longleftrightarrow> (\<exists>n. py_int v = Some n \<and> lo \<le> n \<and> n \<le> hi)"
  by (auto simp: range_rule_def dest: py_int_isdigit split: option.splits)

lemma prune_rule_iff:
  "prune_rule v = Some True \<longleftrightarrow> v = ''0'' \<or> (\<exists>n. py_int v = Some n \<and> 550 \<le> n)"
  by (auto simp: prune_rule_def dest: py_int_isdigit split: option.splits)

lemma validate_setting_fst:
  "fst (validate_setting key v) \<longleftrightarrow>
     (case validations key of None \<Rightarrow> True | Some rule \<Rightarrow> rule v = Some True)"
  by (auto simp: validate_setting_def split: option.splits)

lemma validate_all_None:
  "validate_all ps = None \<longleftrightarrow> (\<forall>(k, v) \<in> set ps. fst (validate_setting k v))"
proof (induction ps)
  case Nil
  then show ?case by simp
next
  case (Cons p ps)
  obtain k v where p: "p = (k, v)" by (cases p)
  obtain ok msg where r: "validate_setting k v = (ok, msg)" by (cases "validate_setting k v")
  show ?case
    using Cons.IH by (simp add: p r)
qed

lemma apply_changes_invalid:
  assumes "\<exists>(k, v) \<in> set (pending_changes panel). \<not> fst (validate_setting k v)"
  shows "fst (apply_changes confirmed stamp (panel, f)) = (panel, f)"
proof -
  from assms have "validate_all (pending_changes panel) \<noteq> None"
    by (auto simp: validate_all_None)
  then obtain msg where "validate_all (pending_changes panel) = Some msg"
    by blast
  moreover from assms have "pending_changes panel \<noteq> []"
    by auto
  ultimately show ?thesis
    by (cases confirmed) (simp_all add: apply_changes_def)
qed

text \<open>
  Claim C8. \<open>validate_setting\<close> accepts \<open>prune\<close> exactly for \<open>0\<close> and for a string of decimal
  digits of value at least 550, \<open>maxconnections\<close> exactly for digits with a value in
  [8,125], \<open>dbcache\<close> in [4,16384], \<open>rpcport\<close> in [1024,65535], and every value of any other
  key; it rejects \<open>maxconnections\<close> 200 and accepts 50; and \<open>apply_changes\<close> with an invalid
  entry among the pending changes leaves the config file, the backups and the panel as
  they were.
\<close>

theorem validate_setting_rules:
  "(fst (validate_setting ''prune'' v) \<longleftrightarrow> v = ''0'' \<or> (\<exists>n. py_int v = Some n \<and> 550 \<le> n))
   \<and> (fst (validate_setting ''maxconnections'' v) \<longleftrightarrow> (\<exists>n. py_int v = Some n \<and> 8 \<le> n \<and> n \<le> 125))
   \<and> (fst (validate_setting ''dbcache'' v) \<longleftrightarrow> (\<exists>n. py_int v = Some n \<and> 4 \<le> n \<and> n \<le> 16384))
   \<and> (fst (validate_setting ''rpcport'' v) \<longleftrightarrow> (\<exists>n. py_int v = Some n \<and> 1024 \<le> n \<and> n \<le> 65535))
   \<and> (key \<notin> {''prune'', ''maxconnections'', ''dbcache'', ''rpcport''} \<longrightarrow>
        validate_setting key v = (True, ''Valid''))
   \<and> \<not> fst (validate_setting ''maxconnections'' ''200'')
   \<and> fst (validate_setting ''maxconnections'' ''50'')
   \<and> ((\<exists>(k, w) \<in> set (pending_changes panel). \<not> fst (validate_setting k w)) \<longrightarrow>
        fst (apply_changes confirmed stamp (panel, f)) = (panel, f))"
proof -
  have a: "fst (validate_setting ''prune'' v) \<longleftrightarrow> v = ''0'' \<or> (\<exists>n. py_int v = Some n \<and> 550 \<le> n)"
    by (simp add: validate_setting_fst validations_def prune_rule_iff)
  have b: "fst (validate_setting ''maxconnections'' w) \<longleftrightarrow> (\<exists>n. py_int w = Some n \<and> 8 \<le> n \<and> n \<le> 125)" for w
    by (simp add: validate_setting_fst validations_def range_rule_iff)
  have c: "fst (validate_setting ''dbcache'' v) \<longleftrightarrow> (\<exists>n. py_int v = Some n \<and> 4 \<le> n \<and> n \<le> 16384)"
    by (simp add: validate_setting_fst validations_def range_rule_iff)
  have d: "fst (validate_setting ''rpcport'' v) \<longleftrightarrow> (\<exists>n. py_int v = Some n \<and> 1024 \<le> n \<and> n \<le> 65535)"
    by (simp add: validate_setting_fst validations_def range_rule_iff)
  have e: "key \<notin> {''prune'', ''maxconnections'', ''dbcache'', ''rpcport''} \<longrightarrow>
        validate_setting key v = (True, ''Valid'')"
    by (simp add: validate_setting_def validations_def)
  have f1: "\<not> fst (validate_setting ''maxconnections'' ''200'')"
    unfolding b by (simp add: py_int_def digit_value_def)
  have f2: "fst (validate_setting ''maxconnections'' ''50'')"
    unfolding b by (simp add: py_int_def digit_value_def)
  have g: "(\<exists>(k, w) \<in> set (pending_changes panel). \<not> fst (validate_setting k w)) \<longrightarrow>
        fst (apply_changes confirmed stamp (panel, f)) = (panel, f)"
    using apply_changes_invalid by blast
  from a b [of v] c d e f1 f2 g show ?thesis by blast
qed

theorem validate_setting_rules_witness:
  "''server'' \<notin> {''prune'', ''maxconnections'', ''dbcache'', ''rpcport''}
   \<and> validate_setting ''server'' ''1'' = (True, ''Valid'')
   \<and> fst (validate_setting ''maxconnections'' ''200'') = False
   \<and> fst (apply_changes True ''20240101_000000''
        (\<lparr>current_settings = [], pending_changes = [(''server'', ''1''), (''maxconnections'', ''200'')]\<rparr>,
         \<lparr>conf = Some ''maxconnections=125'', backups = []\<rparr>))
      = (\<lparr>current_settings = [], pending_changes = [(''server'', ''1''), (''maxconnections'', ''200'')]\<rparr>,
         \<lparr>conf = Some ''maxconnections=125'', backups = []\<rparr>)"
proof -
  note r = validate_setting_rules [where key = "''server''" and v = "''1''" and confirmed = True
      and stamp = "''20240101_000000''"
      and panel = "\<lparr>current_settings = [], pending_changes = [(''server'', ''1''), (''maxconnections'', ''200'')]\<rparr>"
      and f = "\<lparr>conf = Some ''maxconnections=125'', backups = []\<rparr>"]
  from r have bad: "\<not> fst (validate_setting ''maxconnections'' ''200'')"
    by blast
  then have ex: "\<exists>(k, w) \<in> set (pending_changes
          \<lparr>current_settings = [], pending_changes = [(''server'', ''1''), (''maxconnections'', ''200'')]\<rparr>).
        \<not> fst (validate_setting k w)"
    by simp
  have notin: "''server'' \<notin> {''prune'', ''maxconnections'', ''dbcache'', ''rpcport''}"
    by simp
  from r ex notin bad show ?thesis
    by blast
qed

subsection \<open>The lines of a text\<close>

lemma readlines_line: "NL \<notin> set b \<Longrightarrow> readlines (b @ NL # t) = (b @ [NL]) # readlines t"
  by (induction b) auto

lemma readlines_no_newline: "NL \<notin> set l \<Longrightarrow> l \<noteq> [] \<Longrightarrow> readlines l = [l]"
proof (induction l)
  case Nil
  then show ?case by simp
next
  case (Cons c l)
  then show ?case by (cases l) auto
qed

lemma terminatedE:
  assumes "terminated l"
  obtains b where "l = b @ [NL]" and "NL \<notin> set b"
proof -
  from assms have "l = butlast l @ [NL]" "NL \<notin> set (butlast l)"
    by (auto simp: terminated_def wf_line_def dest: append_butlast_last_id)
  then show ?thesis using that by blast
qed

lemma terminatedI: "NL \<notin> set b \<Longrightarrow> terminated (b @ [NL])"
  by (simp add: terminated_def wf_line_def)

lemma unterminated:
  assumes "wf_line l" and "\<not> terminated l"
  shows "NL \<notin> set l" and "l \<noteq> []"
proof -
  from assms have ne: "l \<noteq> []" and "NL \<notin> set (butlast l)" and "last l \<noteq> NL"
    by (auto simp: terminated_def wf_line_def)
  then show "NL \<notin> set l"
    by (cases l rule: rev_cases) auto
  from ne show "l \<noteq> []" .
qed

lemma wf_line_Cons: "wf_line l \<Longrightarrow> c \<noteq> NL \<Longrightarrow> wf_line (c # l)"
  by (auto simp: wf_line_def)

lemma terminated_Cons: "terminated l \<Longrightarrow> c \<noteq> NL \<Longrightarrow> terminated (c # l)"
  by (auto simp: terminated_def wf_line_def)

lemma wf_lines_readlines: "wf_lines (readlines s)"
proof (induction s)
  case Nil
  then show ?case by simp
next
  case (Cons c s)
  show ?case
  proof (cases "c = NL")
    case True
    have "terminated [NL]" by (simp add: terminated_def wf_line_def)
    with Cons True show ?thesis
      by (cases "readlines s") (simp_all add: terminated_def)
  next
    case False
    show ?thesis
    proof (cases "readlines s")
      case Nil
      with False show ?thesis by (simp add: wf_line_def)
    next
      case (Cons l ls)
      with Cons.IH False show ?thesis
        by (cases ls) (simp_all add: wf_line_Cons terminated_Cons)
    qed
  qed
qed

lemma readlines_concat: "wf_lines xs \<Longrightarrow> readlines (concat xs) = xs"
proof (induction xs rule: wf_lines.induct)
  case 1
  then show ?case by simp
next
  case (2 l)
  show ?case
  proof (cases "terminated l")
    case True
    then obtain b where "l = b @ [NL]" "NL \<notin> set b" by (rule terminatedE)
    then show ?thesis using readlines_line [of b "[]"] by simp
  next
    case False
    with 2 show ?thesis by (simp add: readlines_no_newline unterminated)
  qed
next
  case (3 l l' ls)
  then obtain b where "l = b @ [NL]" "NL \<notin> set b" by (auto elim: terminatedE)
  with 3 show ?case using readlines_line [of b "concat (l' # ls)"] by simp
qed

lemma chomp_snoc: "NL \<notin> set l \<Longrightarrow> chomp (l @ [NL]) = chomp l"
  by (cases l rule: rev_cases) (auto simp: chomp_def butlast_append)

lemma readlines_concat_more:
  "wf_lines xs \<Longrightarrow> i < length xs \<Longrightarrow>
   i < length (readlines (concat xs @ NL # t)) \<and>
   chomp (readlines (concat xs @ NL # t) ! i) = chomp (xs ! i)"
proof (induction xs arbitrary: i rule: wf_lines.induct)
  case 1
  then show ?case by simp
next
  case (2 l)
  then have i: "i = 0" by simp
  show ?case
  proof (cases "terminated l")
    case True
    then obtain b where "l = b @ [NL]" "NL \<notin> set b" by (rule terminatedE)
    then show ?thesis using readlines_line [of b "NL # t"] i by simp
  next
    case False
    with 2 have "NL \<notin> set l" by (simp add: unterminated)
    then show ?thesis using readlines_line [of l t] i by (simp add: chomp_snoc)
  qed
next
  case (3 l l' ls)
  then obtain b where b: "l = b @ [NL]" "NL \<notin> set b" by (auto elim: terminatedE)
  have r: "readlines (concat (l # l' # ls) @ NL # t) = l # readlines (concat (l' # ls) @ NL # t)"
    using readlines_line [of b "concat (l' # ls) @ NL # t"] b by simp
  show ?case
  proof (cases i)
    case 0
    then show ?thesis unfolding r by simp
  next
    case (Suc j)
    with 3 show ?thesis unfolding r by simp
  qed
qed

subsection \<open>What \<open>write_config\<close> writes\<close>

lemma write_line_rewrite:
  "write_line st l (acc, u) =
     (acc @ [rewrite st l],
      u \<union> (case line_key l of None \<Rightarrow> {} | Some k \<Rightarrow> if map_of st k = None then {} else {k}))"
  by (auto simp: write_line_def rewrite_def line_key_def parse_line_def Let_def
      split: option.splits)

lemma fold_write_line:
  "fold (write_line st) ls (acc, u) = (acc @ map (rewrite st) ls, u \<union> updated st ls)"
proof (induction ls arbitrary: acc u)
  case Nil
  then show ?case by (simp add: updated_def)
next
  case (Cons l ls)
  have "updated st (l # ls) =
      (case line_key l of None \<Rightarrow> {} | Some k \<Rightarrow> if map_of st k = None then {} else {k})
      \<union> updated st ls"
    by (auto simp: updated_def split: option.splits)
  then show ?case
    by (simp add: write_line_rewrite Cons.IH Un_assoc)
qed

lemma add_new_eq:
  "add_new st u acc = acc @ map added_chunk (filter (\<lambda>(k, v). k \<notin> u) st)"
  by (induction st u acc rule: add_new.induct) (auto simp: added_chunk_def)

lemma write_config_text:
  assumes "conf f = Some text"
  shows "conf (fst (write_config st stamp f)) =
      Some (concat (map (rewrite st) (readlines text))
            @ concat (map added_chunk (filter (\<lambda>(k, v). k \<notin> updated st (readlines text)) st)))"
    and "snd (write_config st stamp f) = (True, ''Configuration saved successfully'')"
  using assms by (simp_all add: write_config_def fold_write_line add_new_eq Let_def)

lemma write_config_missing:
  "conf f = None \<Longrightarrow> write_config st stamp f = (f, (False, ''Config file not found''))"
  by (simp add: write_config_def)

subsection \<open>The rewritten lines are lines\<close>

lemma set_strip: "set (strip s) \<subseteq> set s"
proof -
  have "set (strip s) \<subseteq> set (rev (dropWhile isspace (rev s)))"
    unfolding strip_def by (rule set_dropWhileD [THEN subsetI]) 
  also have "\<dots> \<subseteq> set s"
    using set_dropWhileD [of _ isspace "rev s"] by auto
  finally show ?thesis .
qed

lemma strip_snoc_NL: "strip (l @ [NL]) = strip l"
  by (simp add: strip_def isspace_def)

lemma strip_no_newline:
  assumes "wf_line l"
  shows "NL \<notin> set (strip l)"
proof (cases "terminated l")
  case True
  then obtain b where "l = b @ [NL]" "NL \<notin> set b" by (rule terminatedE)
  then show ?thesis using set_strip [of b] by (auto simp: strip_snoc_NL)
next
  case False
  with assms have "NL \<notin> set l" by (simp add: unterminated)
  then show ?thesis using set_strip [of l] by auto
qed

lemma line_key_no_newline:
  assumes "wf_line l" and "line_key l = Some k"
  shows "NL \<notin> set k"
proof -
  from assms(2) have "k = strip (fst (split_eq (strip l)))"
    by (auto simp: line_key_def parse_line_def Let_def split: if_splits)
  moreover have "set (fst (split_eq (strip l))) \<subseteq> set (strip l)"
    by (auto simp: split_eq_def dest: set_takeWhileD)
  ultimately show ?thesis
    using set_strip [of "fst (split_eq (strip l))"] strip_no_newline [OF assms(1)] by auto
qed

lemma rewrite_cases:
  assumes "clean st" and "wf_line l"
  shows "rewrite st l = l \<or> terminated (rewrite st l)"
proof (cases "line_key l")
  case None
  then show ?thesis by (simp add: rewrite_def)
next
  case (Some k)
  show ?thesis
  proof (cases "map_of st k")
    case None
    with Some show ?thesis by (simp add: rewrite_def)
  next
    case (Some v)
    then have "(k, v) \<in> set st" by (rule map_of_SomeD)
    with assms(1) have "NL \<notin> set v" by (auto simp: clean_def)
    moreover have "NL \<notin> set k" using assms(2) \<open>line_key l = Some k\<close> by (rule line_key_no_newline)
    ultimately have "terminated ((k @ ''='' @ v) @ [NL])"
      by (intro terminatedI) simp
    with Some \<open>line_key l = Some k\<close> show ?thesis by (simp add: rewrite_def)
  qed
qed

lemma wf_lines_wf_line: "wf_lines xs \<Longrightarrow> l \<in> set xs \<Longrightarrow> wf_line l"
  by (induction xs rule: wf_lines.induct) (auto simp: terminated_def)

lemma wf_lines_map:
  "wf_lines xs \<Longrightarrow> (\<forall>l \<in> set xs. g l = l \<or> terminated (g l)) \<Longrightarrow> wf_lines (map g xs)"
  by (induction xs rule: wf_lines.induct) (auto simp: terminated_def)

lemma wf_lines_rewrite: "clean st \<Longrightarrow> wf_lines (map (rewrite st) (readlines text))"
  by (intro wf_lines_map wf_lines_readlines ballI rewrite_cases)
     (auto intro: wf_lines_wf_line wf_lines_readlines)

lemma concat_chunks:
  "concat (map added_chunk zs) = [] \<or> (\<exists>t. concat (map added_chunk zs) = NL # t)"
  by (cases zs) (auto simp: added_chunk_def)

lemma written_lines:
  assumes "clean st" and "i < length (readlines text)"
  shows "i < length (readlines (concat (map (rewrite st) (readlines text)) @ concat (map added_chunk zs)))
     \<and> chomp (readlines (concat (map (rewrite st) (readlines text)) @ concat (map added_chunk zs)) ! i)
        = chomp (rewrite st (readlines text ! i))"
proof -
  have wf: "wf_lines (map (rewrite st) (readlines text))"
    using assms(1) by (rule wf_lines_rewrite)
  have i: "i < length (map (rewrite st) (readlines text))"
    using assms(2) by simp
  from concat_chunks [of zs] show ?thesis
  proof
    assume e: "concat (map added_chunk zs) = []"
    show ?thesis unfolding e using readlines_concat [OF wf] assms(2) by simp
  next
    assume "\<exists>t. concat (map added_chunk zs) = NL # t"
    then obtain t where e: "concat (map added_chunk zs) = NL # t" ..
    show ?thesis unfolding e using readlines_concat_more [OF wf i, of t] assms(2) by simp
  qed
qed

lemma clean_defaults: "clean get_default_settings"
  by (simp add: clean_def get_default_settings_def)

lemma reset_fs:
  "snd (fst (reset_to_defaults confirmed stamp (panel, f))) =
     (if confirmed then fst (write_config get_default_settings stamp f) else f)"
  by (simp add: reset_to_defaults_def Let_def split_beta)

lemma rewrite_other:
  "line_key l \<notin> Some ` fst ` set st \<Longrightarrow> rewrite st l = l"
proof (cases "line_key l")
  case None
  then show ?thesis by (simp add: rewrite_def)
next
  case (Some k)
  assume "line_key l \<notin> Some ` fst ` set st"
  with Some have "k \<notin> fst ` set st" by auto
  then have "map_of st k = None" by (simp add: map_of_eq_None_iff)
  with Some show ?thesis by (simp add: rewrite_def)
qed

lemma chomp_line: "chomp (b @ [NL]) = b"
  by (simp add: chomp_def)

lemma rewrite_key:
  "line_key l = Some k \<Longrightarrow> map_of st k = Some v \<Longrightarrow> chomp (rewrite st l) = k @ ''='' @ v"
  using chomp_line [of "k @ ''='' @ v"] by (simp add: rewrite_def)

lemma write_config_lines:
  assumes "clean st" and "i < length (file_lines f)"
  shows "i < length (file_lines (fst (write_config st stamp f)))"
    and "chomp (file_lines (fst (write_config st stamp f)) ! i) = chomp (rewrite st (file_lines f ! i))"
proof -
  from assms(2) obtain body where body: "conf f = Some body"
    by (cases "conf f") (auto simp: file_lines_def)
  with assms(2) have i: "i < length (readlines body)"
    by (simp add: file_lines_def)
  note w = written_lines [OF assms(1) i,
      of "filter (\<lambda>(k, v). k \<notin> updated st (readlines body)) st"]
  from w show "i < length (file_lines (fst (write_config st stamp f)))"
    by (simp add: file_lines_def write_config_text [OF body])
  from w show "chomp (file_lines (fst (write_config st stamp f)) ! i) = chomp (rewrite st (file_lines f ! i))"
    by (simp add: file_lines_def write_config_text [OF body] body)
qed

lemma filter_not_updated:
  "filter (\<lambda>(k, v). k \<notin> updated st ls) st =
     filter (\<lambda>(k, v). \<not> (\<exists>l \<in> set ls. line_key l = Some k)) st"
proof (rule filter_cong [OF refl])
  fix x
  assume x: "x \<in> set st"
  obtain k v where kv: "x = (k, v)" by (cases x)
  with x have "k \<in> fst ` set st" by force
  then have "map_of st k \<noteq> None" by (simp add: map_of_eq_None_iff)
  then show "(case x of (k, v) \<Rightarrow> k \<notin> updated st ls) =
      (case x of (k, v) \<Rightarrow> \<not> (\<exists>l \<in> set ls. line_key l = Some k))"
    by (auto simp: kv updated_def)
qed

lemma reset_text:
  assumes "conf f = Some body"
  shows "conf (fst (write_config get_default_settings stamp f)) =
      Some (concat (map (rewrite get_default_settings) (readlines body))
            @ concat (map added_chunk
                (filter (\<lambda>(k, v). \<not> (\<exists>l \<in> set (readlines body). line_key l = Some k))
                   get_default_settings)))"
  by (simp only: write_config_text(1) [OF assms] filter_not_updated)

text \<open>
  Claim C9. A confirmed \<open>reset_to_defaults\<close> on an existing config file writes exactly
  this text: every line of the file in order, a line whose key is one of the five
  default keys replaced by that key and its default value and every other line (a
  comment, a blank line, a line without \<open>=\<close>, a key=value line of another key) as it
  was, followed by one added chunk (a blank line, the comment of NodePulse and
  key=default) for each default key, in the order of the defaults, that no line of the
  file has, and by nothing else. So the file has at least the lines it had, every line
  of another key has the same content at the same position, and a line of a default key
  holds that key and its default value. Without a config file, or without confirmation,
  nothing is written.
\<close>

theorem reset_to_defaults_frame:
  "(conf f \<noteq> None \<longrightarrow> conf (snd (fst (reset_to_defaults confirmed stamp (panel, f)))) \<noteq> None)
   \<and> length (file_lines f) \<le> length (file_lines (snd (fst (reset_to_defaults confirmed stamp (panel, f)))))
   \<and> (\<forall>i < length (file_lines f).
        line_key (file_lines f ! i) \<notin> Some ` fst ` set get_default_settings \<longrightarrow>
        chomp (file_lines (snd (fst (reset_to_defaults confirmed stamp (panel, f)))) ! i)
          = chomp (file_lines f ! i))
   \<and> (\<forall>i < length (file_lines f). \<forall>k v.
        confirmed \<and> line_key (file_lines f ! i) = Some k \<and> map_of get_default_settings k = Some v \<longrightarrow>
        chomp (file_lines (snd (fst (reset_to_defaults confirmed stamp (panel, f)))) ! i)
          = k @ ''='' @ v)
   \<and> (\<not> confirmed \<or> conf f = None \<longrightarrow>
        snd (fst (reset_to_defaults confirmed stamp (panel, f))) = f)
   \<and> (confirmed \<and> conf f = Some body \<longrightarrow>
        conf (snd (fst (reset_to_defaults confirmed stamp (panel, f)))) =
          Some (concat (map (rewrite get_default_settings) (readlines body))
                @ concat (map added_chunk
                    (filter (\<lambda>(k, v). \<not> (\<exists>l \<in> set (readlines body). line_key l = Some k))
                       get_default_settings))))"
proof (cases confirmed)
  case False
  then show ?thesis by (simp add: reset_fs)
next
  case True
  let ?f' = "fst (write_config get_default_settings stamp f)"
  note wl = write_config_lines [OF clean_defaults, of _ f stamp]
  have a: "conf f \<noteq> None \<longrightarrow> conf ?f' \<noteq> None"
    by (auto simp: write_config_text)
  have b: "length (file_lines f) \<le> length (file_lines ?f')"
    using wl(1) by (meson not_less order_less_irrefl)
  have c: "\<forall>i < length (file_lines f).
        line_key (file_lines f ! i) \<notin> Some ` fst ` set get_default_settings \<longrightarrow>
        chomp (file_lines ?f' ! i) = chomp (file_lines f ! i)"
    using wl(2) by (simp add: rewrite_other)
  have d: "\<forall>i < length (file_lines f). \<forall>k v.
        confirmed \<and> line_key (file_lines f ! i) = Some k \<and> map_of get_default_settings k = Some v \<longrightarrow>
        chomp (file_lines ?f' ! i) = k @ ''='' @ v"
    using wl(2) by (simp add: rewrite_key)
  from True have eq: "snd (fst (reset_to_defaults confirmed stamp (panel, f))) = ?f'"
    by (simp add: reset_fs)
  have e: "\<not> confirmed \<or> conf f = None \<longrightarrow> ?f' = f"
    using True by (simp add: write_config_missing)
  have g: "confirmed \<and> conf f = Some body \<longrightarrow>
        conf ?f' =
          Some (concat (map (rewrite get_default_settings) (readlines body))
                @ concat (map added_chunk
                    (filter (\<lambda>(k, v). \<not> (\<exists>l \<in> set (readlines body). line_key l = Some k))
                       get_default_settings)))"
    using reset_text [of f body stamp] by blast
  show ?thesis
    unfolding eq by (intro conjI a b c d e g)
qed

subsection \<open>Reading back\<close>

lemma fold_read_line_map:
  "map_of (fold read_line ls st) = map_of st ++ map_of (rev (List.map_filter parse_line ls))"
proof (induction ls arbitrary: st)
  case Nil
  then show ?case by (simp add: List.map_filter_simps)
next
  case (Cons l ls)
  show ?case
  proof (cases "parse_line l")
    case None
    then have "read_line l st = st" by (simp add: read_line_parse)
    with None show ?thesis by (simp add: Cons.IH List.map_filter_simps)
  next
    case (Some kv)
    obtain k v where kv: "kv = (k, v)" by (cases kv)
    let ?m = "map_of (rev (List.map_filter parse_line ls))"
    have "map_of (fold read_line (l # ls) st) = map_of (dict_setitem st k v) ++ ?m"
      using Some kv by (simp add: read_line_parse Cons.IH)
    also have "\<dots> = (map_of st)(k \<mapsto> v) ++ ?m"
      by (simp only: map_of_dict_setitem)
    also have "\<dots> = map_of st ++ ([k \<mapsto> v] ++ ?m)"
      by (rule ext) (simp add: map_add_def split: option.splits)
    also have "[k \<mapsto> v] ++ ?m = map_of (rev (List.map_filter parse_line (l # ls)))"
      using Some kv by (simp add: List.map_filter_simps)
    finally show ?thesis .
  qed
qed

lemma read_config_map:
  "map_of (read_config (Some text)) = map_of (rev (List.map_filter parse_line (readlines text)))"
  by (simp add: read_config_def fold_read_line_map)

lemma parse_line_snoc_NL: "parse_line (l @ [NL]) = parse_line l"
  by (simp add: parse_line_def strip_snoc_NL)

lemma parse_line_NL: "parse_line [NL] = None"
  by (simp add: parse_line_def strip_def isspace_def)

lemma map_filter_append: "List.map_filter g (xs @ ys) = List.map_filter g xs @ List.map_filter g ys"
  by (simp add: List.map_filter_def)

lemma entries_concat_more:
  "wf_lines xs \<Longrightarrow>
   List.map_filter parse_line (readlines (concat xs @ NL # t)) =
     List.map_filter parse_line xs @ List.map_filter parse_line (readlines t)"
proof (induction xs rule: wf_lines.induct)
  case 1
  then show ?case by (simp add: List.map_filter_simps parse_line_NL)
next
  case (2 l)
  show ?case
  proof (cases "terminated l")
    case True
    then obtain b where "l = b @ [NL]" "NL \<notin> set b" by (rule terminatedE)
    then show ?thesis using readlines_line [of b "NL # t"]
      by (simp add: List.map_filter_simps parse_line_NL split: option.splits)
  next
    case False
    with 2 have "NL \<notin> set l" by (simp add: unterminated)
    then show ?thesis using readlines_line [of l t]
      by (simp add: List.map_filter_simps parse_line_snoc_NL split: option.splits)
  qed
next
  case (3 l l' ls)
  then obtain b where b: "l = b @ [NL]" "NL \<notin> set b" by (auto elim: terminatedE)
  have r: "readlines (concat (l # l' # ls) @ NL # t) = l # readlines (concat (l' # ls) @ NL # t)"
    using readlines_line [of b "concat (l' # ls) @ NL # t"] b by simp
  from 3 show ?case unfolding r by (simp add: List.map_filter_simps split: option.splits)
qed

lemma rt_map_of:
  "map_of round_trip_settings k =
     (if k = ''prune'' then Some ''0'' else if k = ''maxconnections'' then Some ''50'' else None)"
  by (simp add: round_trip_settings_def)

lemma rt_rewrite:
  assumes "line_key l \<noteq> Some ''prune''"
  shows "rewrite round_trip_settings l =
     (if line_key l = Some ''maxconnections'' then ''maxconnections=50'' @ [NL] else l)"
proof (cases "line_key l")
  case None
  then show ?thesis by (simp add: rewrite_def)
next
  case (Some k)
  with assms have "k \<noteq> ''prune''" by simp
  with Some show ?thesis
    by (simp add: rewrite_def rt_map_of)
qed

lemma rt_updated:
  assumes "\<exists>l \<in> set ls. line_key l = Some ''maxconnections''"
    and "\<forall>l \<in> set ls. line_key l \<noteq> Some ''prune''"
  shows "updated round_trip_settings ls = {''maxconnections''}"
proof (rule set_eqI)
  fix k
  show "k \<in> updated round_trip_settings ls \<longleftrightarrow> k \<in> {''maxconnections''}"
  proof (cases "k = ''maxconnections''")
    case True
    with assms(1) show ?thesis
      unfolding updated_def by (simp add: rt_map_of)
  next
    case False
    with assms(2) show ?thesis
      unfolding updated_def by (auto simp: rt_map_of split: if_splits)
  qed
qed

lemma rt_parse_new: "parse_line (''maxconnections=50'' @ [NL]) = Some (''maxconnections'', ''50'')"
  by (simp add: parse_line_def strip_def isspace_def split_eq_def)

lemma rt_entries_chunk:
  "List.map_filter parse_line (readlines (''# Added by NodePulse'' @ [NL] @ ''prune=0'' @ [NL]))
     = [(''prune'', ''0'')]"
  by (simp add: List.map_filter_simps parse_line_def strip_def isspace_def split_eq_def)

lemma rt_entries_lines:
  assumes m: "parse_line m = Some (''maxconnections'', ''50'')"
  shows "List.map_filter parse_line
      (map (\<lambda>l. if line_key l = Some ''maxconnections'' then m else l) ls)
     = map set_maxconn (List.map_filter parse_line ls)"
proof (induction ls)
  case Nil
  then show ?case by (simp add: List.map_filter_simps)
next
  case (Cons l ls)
  show ?case
  proof (cases "parse_line l")
    case None
    then have "line_key l = None" by (simp add: line_key_def)
    with None Cons show ?thesis by (simp add: List.map_filter_simps)
  next
    case (Some kv)
    obtain k v where kv: "kv = (k, v)" by (cases kv)
    with Some have "line_key l = Some k" by (simp add: line_key_def)
    with Some kv Cons show ?thesis
      by (simp add: List.map_filter_simps m set_maxconn_def)
  qed
qed

lemma map_of_set_maxconn:
  "map_of (map set_maxconn es) k =
     (if k = ''maxconnections'' then map_option (\<lambda>_. ''50'') (map_of es k) else map_of es k)"
  by (induction es) (auto simp: set_maxconn_def)

lemma line_key_entries:
  "(\<exists>l \<in> set ls. line_key l = Some k) \<longleftrightarrow> k \<in> fst ` set (List.map_filter parse_line ls)"
  by (force simp: line_key_def List.map_filter_def image_iff)

text \<open>
  Claim C7. For a config file with a line for \<open>maxconnections\<close> and no line for \<open>prune\<close>,
  \<open>write_config\<close> of \<open>prune\<close> 0 and \<open>maxconnections\<close> 50 succeeds; the new text is the old one
  line for line, with each line of key \<open>maxconnections\<close> replaced by \<open>maxconnections=50\<close> and
  every other line (comments, blank lines, other keys) as it was, followed by a blank
  line, the comment of NodePulse and \<open>prune=0\<close>; and \<open>read_config\<close> of the new file is
  \<open>read_config\<close> of the old one with \<open>maxconnections\<close> set to 50 and \<open>prune\<close> set to 0.
\<close>

theorem config_round_trip:
  assumes "conf f = Some body"
    and "\<exists>l \<in> set (readlines body). line_key l = Some ''maxconnections''"
    and "\<forall>l \<in> set (readlines body). line_key l \<noteq> Some ''prune''"
  shows "snd (write_config [(''prune'', ''0''), (''maxconnections'', ''50'')] stamp f)
       = (True, ''Configuration saved successfully'')
     \<and> conf (fst (write_config [(''prune'', ''0''), (''maxconnections'', ''50'')] stamp f))
       = Some (concat (map (\<lambda>l. if line_key l = Some ''maxconnections''
                                then ''maxconnections=50'' @ [NL] else l) (readlines body))
               @ [NL] @ ''# Added by NodePulse'' @ [NL] @ ''prune=0'' @ [NL])
     \<and> map_of (read_config (conf (fst (write_config [(''prune'', ''0''), (''maxconnections'', ''50'')] stamp f))))
       = (map_of (read_config (Some body)))(''maxconnections'' \<mapsto> ''50'', ''prune'' \<mapsto> ''0'')"
proof -
  let ?st = "[(''prune'', ''0''), (''maxconnections'', ''50'')]"
  let ?rw = "\<lambda>l. if line_key l = Some ''maxconnections'' then ''maxconnections=50'' @ [NL] else l"
  let ?new = "concat (map ?rw (readlines body)) @ [NL] @ ''# Added by NodePulse'' @ [NL] @ ''prune=0'' @ [NL]"
  let ?es = "List.map_filter parse_line (readlines body)"
  have st: "?st = round_trip_settings" by (simp add: round_trip_settings_def)
  have rw: "map (rewrite round_trip_settings) (readlines body) = map ?rw (readlines body)"
    using assms(3) by (simp add: rt_rewrite)
  have "filter (\<lambda>(k, v). k \<notin> {''maxconnections''}) round_trip_settings = [(''prune'', ''0'')]"
    by (simp add: round_trip_settings_def)
  then have new: "conf (fst (write_config ?st stamp f)) = Some ?new"
    unfolding st write_config_text(1) [OF assms(1)] rt_updated [OF assms(2,3)] rw
    by (simp add: added_chunk_def)
  have ok: "snd (write_config ?st stamp f) = (True, ''Configuration saved successfully'')"
    using assms(1) by (rule write_config_text(2))
  have "clean round_trip_settings" by (simp add: clean_def round_trip_settings_def)
  then have "wf_lines (map (rewrite round_trip_settings) (readlines body))"
    by (rule wf_lines_rewrite)
  then have wf: "wf_lines (map ?rw (readlines body))"
    unfolding rw .
  have "List.map_filter parse_line (readlines ?new) =
      List.map_filter parse_line (map ?rw (readlines body))
      @ List.map_filter parse_line (readlines (''# Added by NodePulse'' @ [NL] @ ''prune=0'' @ [NL]))"
    using entries_concat_more [OF wf, of "''# Added by NodePulse'' @ [NL] @ ''prune=0'' @ [NL]"]
    by (simp only: append_Cons append_Nil)
  then have "List.map_filter parse_line (readlines ?new) = map set_maxconn ?es @ [(''prune'', ''0'')]"
    by (simp only: rt_entries_chunk rt_entries_lines [OF rt_parse_new])
  then have "map_of (read_config (Some ?new)) = map_of (rev (map set_maxconn ?es @ [(''prune'', ''0'')]))"
    by (simp only: read_config_map)
  also have "\<dots> = (map_of (map set_maxconn (rev ?es)))(''prune'' \<mapsto> ''0'')"
    by (simp add: rev_map)
  finally have e1: "map_of (read_config (Some ?new))
      = (map_of (map set_maxconn (rev ?es)))(''prune'' \<mapsto> ''0'')" .
  have e2: "map_of (map set_maxconn (rev ?es)) = (map_of (rev ?es))(''maxconnections'' \<mapsto> ''50'')"
  proof (rule ext)
    fix k
    have "map_of (rev ?es) ''maxconnections'' \<noteq> None"
      using assms(2) by (simp add: map_of_eq_None_iff line_key_entries)
    then show "map_of (map set_maxconn (rev ?es)) k
        = ((map_of (rev ?es))(''maxconnections'' \<mapsto> ''50'')) k"
      by (auto simp: map_of_set_maxconn)
  qed
  have e3: "map_of (read_config (Some body)) = map_of (rev ?es)"
    by (rule read_config_map)
  have rt: "map_of (read_config (Some ?new))
      = (map_of (read_config (Some body)))(''maxconnections'' \<mapsto> ''50'', ''prune'' \<mapsto> ''0'')"
    unfolding e1 e2 e3 ..
  show ?thesis
    unfolding ok new using rt by (intro conjI refl)
qed

lemma example_lines:
  "readlines example_conf =
     [''# Bitcoin config'' @ [NL], [NL], ''maxconnections=125'' @ [NL], ''rpcuser=bob'' @ [NL]]"
  by (simp add: example_conf_def)

lemma example_keys:
  "map line_key (readlines example_conf) = [None, None, Some ''maxconnections'', Some ''rpcuser'']"
  by (simp add: example_lines line_key_def parse_line_def strip_def isspace_def split_eq_def)

theorem config_round_trip_witness:
  "conf example_fs = Some example_conf
   \<and> map line_key (readlines example_conf) = [None, None, Some ''maxconnections'', Some ''rpcuser'']
   \<and> conf (fst (write_config [(''prune'', ''0''), (''maxconnections'', ''50'')] ''20240101_000000'' example_fs))
       = Some (''# Bitcoin config'' @ [NL] @ [NL] @ ''maxconnections=50'' @ [NL] @ ''rpcuser=bob'' @ [NL]
               @ [NL] @ ''# Added by NodePulse'' @ [NL] @ ''prune=0'' @ [NL])"
proof -
  have h1: "conf example_fs = Some example_conf"
    by (simp add: example_fs_def)
  have h2: "\<exists>l \<in> set (readlines example_conf). line_key l = Some ''maxconnections''"
    using example_keys by (simp add: example_lines)
  have h3: "\<forall>l \<in> set (readlines example_conf). line_key l \<noteq> Some ''prune''"
    using example_keys by (simp add: example_lines)
  have "map (\<lambda>l. if line_key l = Some ''maxconnections'' then ''maxconnections=50'' @ [NL] else l)
          (readlines example_conf)
      = [''# Bitcoin config'' @ [NL], [NL], ''maxconnections=50'' @ [NL], ''rpcuser=bob'' @ [NL]]"
    using example_keys by (simp add: example_lines)
  with config_round_trip [OF h1 h2 h3, of "''20240101_000000''"] h1 example_keys show ?thesis
    by simp
qed

lemma example_has_key:
  "(\<exists>l \<in> set (readlines example_conf). line_key l = Some k) \<longleftrightarrow>
     k = ''maxconnections'' \<or> k = ''rpcuser''"
proof -
  have "(\<exists>l \<in> set (readlines example_conf). line_key l = Some k) \<longleftrightarrow>
      Some k \<in> set (map line_key (readlines example_conf))"
    by (simp add: image_iff eq_commute)
  also have "\<dots> \<longleftrightarrow> k = ''maxconnections'' \<or> k = ''rpcuser''"
    unfolding example_keys by auto
  finally show ?thesis .
qed

lemma example_reset_lines:
  "map (rewrite get_default_settings) (readlines example_conf) =
     [''# Bitcoin config'' @ [NL], [NL], ''maxconnections=125'' @ [NL], ''rpcuser=bob'' @ [NL]]"
  using example_keys by (simp add: example_lines rewrite_def get_default_settings_def)

lemma example_reset_added:
  "filter (\<lambda>(k, v). \<not> (\<exists>l \<in> set (readlines example_conf). line_key l = Some k))
      get_default_settings =
     [(''prune'', ''0''), (''dbcache'', ''450''), (''server'', ''0''), (''rpcport'', ''8332'')]"
  by (simp add: example_has_key get_default_settings_def)

theorem reset_to_defaults_frame_witness:
  "3 < length (file_lines example_fs)
   \<and> line_key (file_lines example_fs ! 3) \<notin> Some ` fst ` set get_default_settings
   \<and> chomp (file_lines (snd (fst (reset_to_defaults True ''20240101_000000''
        (\<lparr>current_settings = [], pending_changes = []\<rparr>, example_fs)))) ! 3) = ''rpcuser=bob''
   \<and> conf example_fs = Some example_conf
   \<and> conf (snd (fst (reset_to_defaults True ''20240101_000000''
        (\<lparr>current_settings = [], pending_changes = []\<rparr>, example_fs)))) =
       Some (''# Bitcoin config'' @ [NL] @ [NL] @ ''maxconnections=125'' @ [NL] @ ''rpcuser=bob'' @ [NL]
             @ [NL] @ ''# Added by NodePulse'' @ [NL] @ ''prune=0'' @ [NL]
             @ [NL] @ ''# Added by NodePulse'' @ [NL] @ ''dbcache=450'' @ [NL]
             @ [NL] @ ''# Added by NodePulse'' @ [NL] @ ''server=0'' @ [NL]
             @ [NL] @ ''# Added by NodePulse'' @ [NL] @ ''rpcport=8332'' @ [NL])"
proof -
  have fl: "file_lines example_fs = readlines example_conf"
    by (simp add: file_lines_def example_fs_def)
  have a: "3 < length (file_lines example_fs)"
    by (simp add: fl example_lines)
  have "line_key (file_lines example_fs ! 3) = Some ''rpcuser''"
    using example_keys by (simp add: fl example_lines)
  then have b: "line_key (file_lines example_fs ! 3) \<notin> Some ` fst ` set get_default_settings"
    by (simp add: get_default_settings_def)
  have c: "chomp (file_lines example_fs ! 3) = ''rpcuser=bob''"
    by (simp add: fl example_lines chomp_def)
  have d: "conf example_fs = Some example_conf"
    by (simp add: example_fs_def)
  have e: "concat (map (rewrite get_default_settings) (readlines example_conf))
        @ concat (map added_chunk
            (filter (\<lambda>(k, v). \<not> (\<exists>l \<in> set (readlines example_conf). line_key l = Some k))
               get_default_settings)) =
      ''# Bitcoin config'' @ [NL] @ [NL] @ ''maxconnections=125'' @ [NL] @ ''rpcuser=bob'' @ [NL]
             @ [NL] @ ''# Added by NodePulse'' @ [NL] @ ''prune=0'' @ [NL]
             @ [NL] @ ''# Added by NodePulse'' @ [NL] @ ''dbcache=450'' @ [NL]
             @ [NL] @ ''# Added by NodePulse'' @ [NL] @ ''server=0'' @ [NL]
             @ [NL] @ ''# Added by NodePulse'' @ [NL] @ ''rpcport=8332'' @ [NL]"
    unfolding example_reset_lines example_reset_added by (simp add: added_chunk_def)
  note r = reset_to_defaults_frame [where f = example_fs and confirmed = True
      and stamp = "''20240101_000000''"
      and panel = "\<lparr>current_settings = [], pending_changes = []\<rparr>"
      and body = example_conf]
  from r have r3: "\<forall>i < length (file_lines example_fs).
        line_key (file_lines example_fs ! i) \<notin> Some ` fst ` set get_default_settings \<longrightarrow>
        chomp (file_lines (snd (fst (reset_to_defaults True ''20240101_000000''
            (\<lparr>current_settings = [], pending_changes = []\<rparr>, example_fs)))) ! i)
          = chomp (file_lines example_fs ! i)"
    by (elim conjE)
  from r have r6: "True \<and> conf example_fs = Some example_conf \<longrightarrow>
        conf (snd (fst (reset_to_defaults True ''20240101_000000''
            (\<lparr>current_settings = [], pending_changes = []\<rparr>, example_fs)))) =
          Some (concat (map (rewrite get_default_settings) (readlines example_conf))
                @ concat (map added_chunk
                    (filter (\<lambda>(k, v). \<not> (\<exists>l \<in> set (readlines example_conf). line_key l = Some k))
                       get_default_settings)))"
    by (elim conjE)
  from r3 a b c have 1: "chomp (file_lines (snd (fst (reset_to_defaults True ''20240101_000000''
        (\<lparr>current_settings = [], pending_changes = []\<rparr>, example_fs)))) ! 3) = ''rpcuser=bob''"
    by metis
  from r6 d have 2: "conf (snd (fst (reset_to_defaults True ''20240101_000000''
        (\<lparr>current_settings = [], pending_changes = []\<rparr>, example_fs)))) =
       Some (concat (map (rewrite get_default_settings) (readlines example_conf))
        @ concat (map added_chunk
            (filter (\<lambda>(k, v). \<not> (\<exists>l \<in> set (readlines example_conf). line_key l = Some k))
               get_default_settings)))"
    by blast
  show ?thesis
    using a b 1 d 2 unfolding e by (intro conjI)
qed

end
